theory Spec2Isabelle
  imports Main "HOL-Library.AList"
begin

section \<open>Values, errors and heap objects\<close>

text \<open>
  The program is the latest revision of the compiler (the one with join synthesis). Its
  JavaScript objects are shared by reference, so the model keeps them in stores inside
  the template context: an object reference is an index into its store. A call of
  \<^verbatim>\<open>error(msg, obj)\<close> prints a diagnostic and exits the process; it is the \<open>Inl\<close>
  branch of a sum. An exception thrown by the JavaScript runtime itself (reading a
  property of \<^verbatim>\<open>null\<close>, call stack exhausted) is an error value of its own, since it
  is not one of the compiler's diagnostics. Calls of \<^verbatim>\<open>log\<close> only print and are left out.
\<close>

type_synonym inst_id = nat
type_synonym slot_id = nat
type_synonym bind_id = nat

datatype jsval = JStr string | JNum int | JBool bool

datatype error =
    MissingDefn string
  | DuplicateId string string
  | MissingField string string
  | UnknownImport string string
  | NoFields string string
  | NoSuchField string string
  | TypeMismatch string string string string
  | RequiresSlot
  | BadMode string
  | JsTypeError string
  | JsStackOverflow

record Literal =
  l_type :: string
  l_value :: jsval

record Reference =
  r_name :: string
  r_path :: "string list"

datatype source = SrcLit Literal | SrcRef Reference

text \<open>The two terminal end-points: a \<^verbatim>\<open>Literal\<close> object or a reference to a \<^verbatim>\<open>ValueSlot\<close>.\<close>

datatype endpoint = Lit Literal | Slot slot_id

text \<open>What \<^verbatim>\<open>resolve_path\<close> can return: \<^verbatim>\<open>null\<close>, an \<^verbatim>\<open>InstanceContext\<close> or a \<^verbatim>\<open>ValueSlot\<close>;
  \<^verbatim>\<open>Literal.resolve\<close> returns the literal.\<close>

datatype target = TNull | TInst inst_id | TEnd endpoint

text \<open>Any object a component can hand to \<^verbatim>\<open>emit_triggered\<close>, told apart by its \<^verbatim>\<open>is\<close> field.\<close>

datatype jsobj = OSlot slot_id | OLit Literal | OBinding bind_id | OInst inst_id

text \<open>An entry of an action's \<^verbatim>\<open>wait\<close> list, or the argument of \<^verbatim>\<open>es.string\<close>: a \<^verbatim>\<open>Binding\<close>,
  or a \<^verbatim>\<open>ValueSlot\<close> itself (the helper actions of a join wait on the slot).\<close>

datatype dep = DBind bind_id | DSlot slot_id

text \<open>
  An emission callback \<^verbatim>\<open>function (es) { ... }\<close> is a straight-line script of calls on
  \<^verbatim>\<open>es\<close>. A template literal is a list of pieces: fixed text (which includes symbols
  known when the closure was created) and calls \<^verbatim>\<open>es.string(binding)\<close>. \<open>CallEmit\<close> is
  the call \<^verbatim>\<open>act.emit(new EmitContext(tpl, act.inst, prefix, captureMap))\<close> made by the
  actor closure of a join.
\<close>

datatype piece = Txt string | Str dep

datatype cmd =
    Emit "piece list"
  | EmitTriggered jsobj string
  | CallEmit "cmd list" inst_id string "(string \<times> string) list"

record Action =
  wait :: "dep list"
  emit :: "cmd list"
  a_inst :: inst_id
  needs :: "slot_id list option"

record ValueSlot =
  s_type :: string
  slot :: string
  queued :: "Action list"
  s_field :: string
  s_inst :: inst_id

record Binding =
  b_to :: source
  b_type :: string
  b_field :: string
  b_inst :: inst_id
  resolved :: "endpoint option"

record InstanceContext =
  i_fields :: "string \<Rightarrow> slot_id option"
  i_args :: "string \<Rightarrow> source option"
  i_where :: string

text \<open>
  \<^verbatim>\<open>TemplateContext\<close>: \<open>tpl_imports\<close> is the \<^verbatim>\<open>imports\<close> Map (a JavaScript Map keeps
  insertion order, hence an association list), \<open>uidMap\<close> maps a base name to its counter
  (\<^verbatim>\<open>get(name) || 0\<close>: absent reads as 0), \<open>bound\<close> maps an instance id to its instance,
  \<open>bindings\<close> is the unused array of all bindings. The three stores hold the objects
  allocated so far; \<open>n_insts\<close>, \<open>n_slots\<close>, \<open>n_binds\<close> are the next free references.
\<close>

record TemplateContext =
  name :: string
  tpl_imports :: "(string \<times> string) list"
  uidMap :: "string \<Rightarrow> nat"
  bound :: "string \<Rightarrow> inst_id option"
  lines :: "string list"
  bindings :: "bind_id list"
  acts :: "Action list"
  roots :: "Action list"
  insts :: "inst_id \<Rightarrow> InstanceContext"
  slots :: "slot_id \<Rightarrow> ValueSlot"
  binds :: "bind_id \<Rightarrow> Binding"
  n_insts :: nat
  n_slots :: nat
  n_binds :: nat

record EmitContext =
  e_inst :: inst_id
  prefix :: string
  captureMap :: "(string \<times> string) list option"

section \<open>Unique symbols\<close>

text \<open>Number-to-string conversion of a counter (a non-negative integer): decimal digits.\<close>

definition digit_char :: "nat \<Rightarrow> char" where
  "digit_char d = ''0123456789'' ! d"

fun dec :: "nat \<Rightarrow> string" where
  "dec n = (if n < 10 then [digit_char n] else dec (n div 10) @ [digit_char (n mod 10)])"

declare dec.simps [simp del]

text \<open>\<^verbatim>\<open>TemplateContext.uid(name)\<close>: bump the counter of \<open>name\<close>, return \<^verbatim>\<open>name+'_'+n\<close>.\<close>

definition uid :: "string \<Rightarrow> TemplateContext \<Rightarrow> string \<times> TemplateContext" where
  "uid nm st =
     (let n = uidMap st nm + 1
      in (nm @ ''_'' @ dec n, st\<lparr>uidMap := (uidMap st)(nm := n)\<rparr>))"

text \<open>A sequence of calls of \<open>uid\<close>, one per base name, returning the symbols in call order.\<close>

fun uid_calls :: "string list \<Rightarrow> TemplateContext \<Rightarrow> string list \<times> TemplateContext" where
  "uid_calls [] st = ([], st)"
| "uid_calls (nm # nms) st =
     (let (u, st1) = uid nm st;
          (us, st2) = uid_calls nms st1
      in (u # us, st2))"

section \<open>Text helpers\<close>

text \<open>\<^verbatim>\<open>Array.prototype.join\<close> and \<^verbatim>\<open>String.prototype.split\<close> on a one-character separator.\<close>

fun join :: "string \<Rightarrow> string list \<Rightarrow> string" where
  "join sep [] = []"
| "join sep [x] = x"
| "join sep (x # y # ys) = x @ sep @ join sep (y # ys)"

fun split :: "char \<Rightarrow> string \<Rightarrow> string list" where
  "split sep [] = [[]]"
| "split sep (c # cs) =
     (if c = sep then [] # split sep cs
      else (case split sep cs of [] \<Rightarrow> [[c]] | w # ws \<Rightarrow> (c # w) # ws))"

text \<open>
  \<^verbatim>\<open>JSON.stringify\<close> of a literal's value: a string is quoted, with the quote, the
  backslash and the control characters escaped; an integer is printed in decimal; a
  boolean by its name.
\<close>

definition hex_digit :: "nat \<Rightarrow> char" where
  "hex_digit d = ''0123456789abcdef'' ! d"

definition json_escape :: "char \<Rightarrow> string" where
  "json_escape c =
     (if c = CHR 0x22 then [CHR 0x5C, CHR 0x22]
      else if c = CHR 0x5C then [CHR 0x5C, CHR 0x5C]
      else if c = CHR 0x08 then [CHR 0x5C, CHR ''b'']
      else if c = CHR 0x09 then [CHR 0x5C, CHR ''t'']
      else if c = CHR 0x0A then [CHR 0x5C, CHR ''n'']
      else if c = CHR 0x0C then [CHR 0x5C, CHR ''f'']
      else if c = CHR 0x0D then [CHR 0x5C, CHR ''r'']
      else if (of_char c :: nat) < 32
        then [CHR 0x5C, CHR ''u'', CHR ''0'', CHR ''0'',
              hex_digit (of_char c div 16), hex_digit (of_char c mod 16)]
      else [c])"

definition JSON_stringify :: "jsval \<Rightarrow> string" where
  "JSON_stringify v =
     (case v of
        JStr s \<Rightarrow> [CHR 0x22] @ concat (map json_escape s) @ [CHR 0x22]
      | JNum i \<Rightarrow> (if i < 0 then ''-'' @ dec (nat (- i)) else dec (nat i))
      | JBool b \<Rightarrow> (if b then ''true'' else ''false''))"

text \<open>\<^verbatim>\<open>typeof\<close> of a default value.\<close>

definition typeof :: "jsval \<Rightarrow> string" where
  "typeof v = (case v of JStr _ \<Rightarrow> ''string'' | JNum _ \<Rightarrow> ''number'' | JBool _ \<Rightarrow> ''boolean'')"

section \<open>Resolution of references and bindings\<close>

text \<open>\<^verbatim>\<open>InstanceContext.path()\<close>, \<^verbatim>\<open>ValueSlot.path()\<close> and \<^verbatim>\<open>Literal.path()\<close>.\<close>

definition inst_path :: "TemplateContext \<Rightarrow> inst_id \<Rightarrow> string" where
  "inst_path st i = i_where (insts st i) @ '' in '' @ name st"

definition slot_path :: "TemplateContext \<Rightarrow> slot_id \<Rightarrow> string" where
  "slot_path st s =
     ''value-slot '' @ s_field (slots st s) @ '' in '' @ inst_path st (s_inst (slots st s))"

definition literal_path :: "Literal \<Rightarrow> string" where
  "literal_path l = ''literal-'' @ l_type l"

text \<open>The constructor of \<^verbatim>\<open>Reference\<close>: the path is the name split at the dots.\<close>

definition Reference_new :: "string \<Rightarrow> Reference" where
  "Reference_new nm = \<lparr>r_name = nm, r_path = split (CHR ''.'') nm\<rparr>"

text \<open>
  The loop of \<^verbatim>\<open>resolve_path\<close> over \<^verbatim>\<open>path[1..]\<close>; \<open>inst\<close> is the loop variable. The field
  Map of an instance holds only \<^verbatim>\<open>ValueSlot\<close> objects (\<^verbatim>\<open>output\<close> is the only writer), so the
  check \<^verbatim>\<open>!got.resolve\<close> never fires and \<^verbatim>\<open>got.resolve()\<close> is the slot itself.
\<close>

fun resolve_fields ::
  "TemplateContext \<Rightarrow> string list \<Rightarrow> target \<Rightarrow> string list \<Rightarrow> error + target" where
  "resolve_fields st path inst [] = Inr inst"
| "resolve_fields st path inst (field # rest) =
     (case inst of
        TInst i \<Rightarrow>
          (case i_fields (insts st i) field of
             None \<Rightarrow> Inl (NoSuchField field (inst_path st i))
           | Some got \<Rightarrow> resolve_fields st path (TEnd (Slot got)) rest)
      | TEnd (Slot s) \<Rightarrow> Inl (NoFields (slot_path st s) (join ''.'' path))
      | TEnd (Lit l) \<Rightarrow> Inl (NoFields (literal_path l) (join ''.'' path))
      | TNull \<Rightarrow> Inl (JsTypeError ''cannot read property is of null''))"

text \<open>\<^verbatim>\<open>TemplateContext.resolve_path(path)\<close>: \<^verbatim>\<open>null\<close> for an empty path and for an
  unknown instance id.\<close>

definition resolve_path :: "string list \<Rightarrow> TemplateContext \<Rightarrow> error + target" where
  "resolve_path path st =
     (case path of
        [] \<Rightarrow> Inr TNull
      | p0 # rest \<Rightarrow>
          (case bound st p0 of
             None \<Rightarrow> Inr TNull
           | Some i \<Rightarrow> resolve_fields st path (TInst i) rest))"

text \<open>\<^verbatim>\<open>Reference.resolve(tpl)\<close>: nothing is stored in the reference. (There is one
  template context, so the test \<^verbatim>\<open>!tpl\<close> never fires.)\<close>

definition Reference_resolve :: "Reference \<Rightarrow> TemplateContext \<Rightarrow> error + target" where
  "Reference_resolve r st = resolve_path (r_path r) st"

text \<open>\<^verbatim>\<open>this.to.resolve(this.tpl)\<close>: \<^verbatim>\<open>Literal.resolve\<close> returns the literal itself.\<close>

definition source_resolve :: "source \<Rightarrow> TemplateContext \<Rightarrow> error + target" where
  "source_resolve src st =
     (case src of SrcLit l \<Rightarrow> Inr (TEnd (Lit l)) | SrcRef r \<Rightarrow> Reference_resolve r st)"

definition endpoint_type :: "TemplateContext \<Rightarrow> endpoint \<Rightarrow> string" where
  "endpoint_type st e = (case e of Lit l \<Rightarrow> l_type l | Slot s \<Rightarrow> s_type (slots st s))"

definition type_mismatch :: "TemplateContext \<Rightarrow> bind_id \<Rightarrow> string \<Rightarrow> error" where
  "type_mismatch st b found =
     TypeMismatch (b_field (binds st b)) (b_type (binds st b)) found
       (inst_path st (b_inst (binds st b)))"

text \<open>
  \<^verbatim>\<open>Binding.resolve()\<close>. Reading \<^verbatim>\<open>ref.type\<close> of \<^verbatim>\<open>null\<close> throws a \<^verbatim>\<open>TypeError\<close>; an instance
  has no \<^verbatim>\<open>type\<close> field, so the test compares \<^verbatim>\<open>undefined\<close> with the declared type (always
  a string) and reports a mismatch. Only a literal or a slot can pass the test, which is
  why the memo field holds an \<open>endpoint\<close>.
\<close>

definition Binding_resolve ::
  "bind_id \<Rightarrow> TemplateContext \<Rightarrow> error + (endpoint \<times> TemplateContext)" where
  "Binding_resolve b st =
     (case resolved (binds st b) of
        Some e \<Rightarrow> Inr (e, st)
      | None \<Rightarrow>
          (case source_resolve (b_to (binds st b)) st of
             Inl err \<Rightarrow> Inl err
           | Inr TNull \<Rightarrow> Inl (JsTypeError ''cannot read property type of null'')
           | Inr (TInst i) \<Rightarrow> Inl (type_mismatch st b ''undefined'')
           | Inr (TEnd e) \<Rightarrow>
               (if endpoint_type st e \<noteq> b_type (binds st b)
                then Inl (type_mismatch st b (endpoint_type st e))
                else Inr (e, st\<lparr>binds := (binds st)(b := (binds st b)\<lparr>resolved := Some e\<rparr>)\<rparr>))))"

text \<open>\<^verbatim>\<open>dep.resolve()\<close> on an entry of a wait list: \<^verbatim>\<open>ValueSlot.resolve\<close> returns the slot.\<close>

definition dep_resolve ::
  "dep \<Rightarrow> TemplateContext \<Rightarrow> error + (endpoint \<times> TemplateContext)" where
  "dep_resolve d st = (case d of DBind b \<Rightarrow> Binding_resolve b st | DSlot s \<Rightarrow> Inr (Slot s, st))"

section \<open>The emission protocol\<close>

text \<open>
  \<^verbatim>\<open>EmitContext.string(binding)\<close>. The value \<^verbatim>\<open>binding.resolve()\<close> is a literal or a slot, so
  the last branch of the source (\<^verbatim>\<open>inappropriate end-point\<close>) has no input. A Map object
  is truthy, so \<^verbatim>\<open>if (captures)\<close> asks whether a map was passed to the constructor; a
  rename is used when it is a non-empty string.
\<close>

definition EmitContext_string ::
  "EmitContext \<Rightarrow> dep \<Rightarrow> TemplateContext \<Rightarrow> error + (string \<times> TemplateContext)" where
  "EmitContext_string es binding st =
     (case dep_resolve binding st of
        Inl err \<Rightarrow> Inl err
      | Inr (ref, st1) \<Rightarrow>
          (case ref of
             Lit l \<Rightarrow> Inr (JSON_stringify (l_value l), st1)
           | Slot s \<Rightarrow>
               (case captureMap es of
                  None \<Rightarrow> Inr (slot (slots st1 s), st1)
                | Some captures \<Rightarrow>
                    (case map_of captures (slot (slots st1 s)) of
                       None \<Rightarrow> Inr (slot (slots st1 s), st1)
                     | Some rename \<Rightarrow>
                         (if rename \<noteq> [] then Inr (rename, st1)
                          else Inr (slot (slots st1 s), st1))))))"

text \<open>\<^verbatim>\<open>EmitContext.emit(code)\<close>: \<^verbatim>\<open>this.lines\<close> is the template's line array.\<close>

definition EmitContext_emit :: "EmitContext \<Rightarrow> string \<Rightarrow> TemplateContext \<Rightarrow> TemplateContext" where
  "EmitContext_emit es code st = st\<lparr>lines := lines st @ [prefix es @ code]\<rparr>"

text \<open>A template literal: its pieces are evaluated from left to right and concatenated.\<close>

fun render ::
  "EmitContext \<Rightarrow> piece list \<Rightarrow> TemplateContext \<Rightarrow> error + (string \<times> TemplateContext)" where
  "render es [] st = Inr ([], st)"
| "render es (Txt t # ps) st =
     (case render es ps st of
        Inl err \<Rightarrow> Inl err
      | Inr (r, st1) \<Rightarrow> Inr (t @ r, st1))"
| "render es (Str d # ps) st =
     (case EmitContext_string es d st of
        Inl err \<Rightarrow> Inl err
      | Inr (s, st1) \<Rightarrow>
          (case render es ps st1 of
             Inl err \<Rightarrow> Inl err
           | Inr (r, st2) \<Rightarrow> Inr (s @ r, st2)))"

text \<open>
  A call \<^verbatim>\<open>act.emit(es)\<close> runs the callback of an action, which may call other callbacks
  through \<^verbatim>\<open>emit_triggered\<close>. The functions below take that call as the parameter \<open>call\<close>;
  \<open>call_emit\<close> closes the recursion with a bound on the depth of nested calls, the
  call stack of the JavaScript engine.
\<close>

type_synonym emit_fn =
  "cmd list \<Rightarrow> EmitContext \<Rightarrow> TemplateContext \<Rightarrow> error + TemplateContext"

text \<open>The loop \<^verbatim>\<open>for (let act of list) { act.emit(new EmitContext(tpl, act.inst, prefix)) }\<close>
  of \<^verbatim>\<open>emit_triggered\<close> and of \<^verbatim>\<open>emit_code\<close>: no capture map is passed.\<close>

fun emit_each :: "emit_fn \<Rightarrow> string \<Rightarrow> Action list \<Rightarrow> TemplateContext \<Rightarrow> error + TemplateContext" where
  "emit_each call pfx [] st = Inr st"
| "emit_each call pfx (act # rest) st =
     (case call (emit act) \<lparr>e_inst = a_inst act, prefix = pfx, captureMap = None\<rparr> st of
        Inl err \<Rightarrow> Inl err
      | Inr st1 \<Rightarrow> emit_each call pfx rest st1)"

text \<open>The fields \<^verbatim>\<open>is\<close> and \<^verbatim>\<open>mode\<close>, set once by each constructor.\<close>

definition is_of :: "jsobj \<Rightarrow> string" where
  "is_of ob =
     (case ob of OSlot _ \<Rightarrow> ''slot'' | OLit _ \<Rightarrow> ''literal'' | OBinding _ \<Rightarrow> ''binding''
      | OInst _ \<Rightarrow> ''instance'')"

definition mode_of :: "jsobj \<Rightarrow> string option" where
  "mode_of ob =
     (case ob of OSlot _ \<Rightarrow> Some ''once'' | OLit _ \<Rightarrow> Some ''const'' | OBinding _ \<Rightarrow> None
      | OInst _ \<Rightarrow> None)"

text \<open>\<^verbatim>\<open>EmitContext.emit_triggered(ref, indent)\<close>.\<close>

definition emit_triggered ::
  "emit_fn \<Rightarrow> EmitContext \<Rightarrow> jsobj \<Rightarrow> string \<Rightarrow> TemplateContext \<Rightarrow> error + TemplateContext" where
  "emit_triggered call es ref indent st =
     (if is_of ref \<noteq> ''slot'' then Inl RequiresSlot
      else if mode_of ref \<noteq> Some ''const''
      then (case ref of
              OSlot s \<Rightarrow> emit_each call (prefix es @ indent) (queued (slots st s)) st
            | _ \<Rightarrow> Inl RequiresSlot)
      else Inl (BadMode (is_of ref)))"

fun run_cmd :: "emit_fn \<Rightarrow> EmitContext \<Rightarrow> cmd \<Rightarrow> TemplateContext \<Rightarrow> error + TemplateContext" where
  "run_cmd call es (Emit ps) st =
     (case render es ps st of
        Inl err \<Rightarrow> Inl err
      | Inr (code, st1) \<Rightarrow> Inr (EmitContext_emit es code st1))"
| "run_cmd call es (EmitTriggered ref indent) st = emit_triggered call es ref indent st"
| "run_cmd call es (CallEmit body inst pfx cm) st =
     call body \<lparr>e_inst = inst, prefix = pfx, captureMap = Some cm\<rparr> st"

fun run_cmds :: "emit_fn \<Rightarrow> EmitContext \<Rightarrow> cmd list \<Rightarrow> TemplateContext \<Rightarrow> error + TemplateContext" where
  "run_cmds call es [] st = Inr st"
| "run_cmds call es (c # cs) st =
     (case run_cmd call es c st of
        Inl err \<Rightarrow> Inl err
      | Inr st1 \<Rightarrow> run_cmds call es cs st1)"

primrec call_emit :: "nat \<Rightarrow> emit_fn" where
  "call_emit 0 = (\<lambda>cmds es st. Inl JsStackOverflow)"
| "call_emit (Suc n) = (\<lambda>cmds es st. run_cmds (call_emit n) es cmds st)"

section \<open>Scheduling\<close>

text \<open>\<^verbatim>\<open>need.queued.push(act)\<close>.\<close>

definition queue_on :: "slot_id \<Rightarrow> Action \<Rightarrow> TemplateContext \<Rightarrow> TemplateContext" where
  "queue_on s act st =
     st\<lparr>slots := (slots st)(s := (slots st s)\<lparr>queued := queued (slots st s) @ [act]\<rparr>)\<rparr>"

text \<open>
  The inner loop of \<^verbatim>\<open>resolve_acts\<close> over \<^verbatim>\<open>act.wait\<close>: every dependency is resolved, and
  those whose mode is not \<^verbatim>\<open>'const'\<close> are collected. A literal has mode \<^verbatim>\<open>'const'\<close>, a slot
  has mode \<^verbatim>\<open>'once'\<close>, so \<^verbatim>\<open>needs\<close> is a list of slots.
\<close>

fun collect_needs ::
  "dep list \<Rightarrow> TemplateContext \<Rightarrow> error + (slot_id list \<times> TemplateContext)" where
  "collect_needs [] st = Inr ([], st)"
| "collect_needs (d # ds) st =
     (case dep_resolve d st of
        Inl err \<Rightarrow> Inl err
      | Inr (ref, st1) \<Rightarrow>
          (case collect_needs ds st1 of
             Inl err \<Rightarrow> Inl err
           | Inr (nds, st2) \<Rightarrow>
               Inr ((case ref of Lit _ \<Rightarrow> [] | Slot s \<Rightarrow> [s]) @ nds, st2)))"

text \<open>
  The helper action of a join for one dependency. Its closure reads \<^verbatim>\<open>captures[nid]\<close>,
  \<^verbatim>\<open>need.slot\<close>, \<^verbatim>\<open>counterVar\<close> and \<^verbatim>\<open>actorVar\<close>, none of which changes after the closure is
  created.
\<close>

definition decrAct ::
  "string \<Rightarrow> string \<Rightarrow> inst_id \<Rightarrow> slot_id \<Rightarrow> string \<Rightarrow> string \<Rightarrow> Action" where
  "decrAct counterVar actorVar inst need slotsym cap =
     \<lparr>wait = [DSlot need],
      emit = [Emit [Txt (cap @ '' = '' @ slotsym @ '';'')],
              Emit [Txt (''if (!--'' @ counterVar @ '') '' @ actorVar @ ''();'')]],
      a_inst = inst,
      needs = None\<rparr>"

text \<open>The loop over \<^verbatim>\<open>nid\<close>, on the pairs \<^verbatim>\<open>(needs[nid], captures[nid])\<close>: the part that
  queues the helper actions, and the part that fills the capture Map
  (\<^verbatim>\<open>Map.set\<close> replaces the value of a key that is present and appends a new key).\<close>

fun queue_decr ::
  "string \<Rightarrow> string \<Rightarrow> inst_id \<Rightarrow> (slot_id \<times> string) list \<Rightarrow> TemplateContext \<Rightarrow> TemplateContext" where
  "queue_decr counterVar actorVar inst [] st = st"
| "queue_decr counterVar actorVar inst ((need, cap) # rest) st =
     queue_decr counterVar actorVar inst rest
       (queue_on need (decrAct counterVar actorVar inst need (slot (slots st need)) cap) st)"

fun fill_captures ::
  "TemplateContext \<Rightarrow> (slot_id \<times> string) list \<Rightarrow> (string \<times> string) list \<Rightarrow> (string \<times> string) list" where
  "fill_captures st [] cm = cm"
| "fill_captures st ((need, cap) # rest) cm =
     fill_captures st rest (AList.update (slot (slots st need)) cap cm)"

text \<open>
  The actor action of a join. Its closure runs when the roots are emitted, after
  \<^verbatim>\<open>resolve_acts\<close> has returned, so the capture Map it passes on is the filled one.
\<close>

definition actorAct :: "string \<Rightarrow> Action \<Rightarrow> (string \<times> string) list \<Rightarrow> Action" where
  "actorAct actorVar act cm =
     \<lparr>wait = [],
      emit = [Emit [Txt (''function '' @ actorVar @ ''() {'')],
              CallEmit (emit act) (a_inst act) ''  '' cm,
              Emit [Txt ''}'']],
      a_inst = a_inst act,
      needs = None\<rparr>"

text \<open>The declaration line of a join,
  \<^verbatim>\<open>var ${counterVar} = ${needs.length}, ${captures.join(', ')};\<close>.\<close>

definition join_decl :: "string \<Rightarrow> nat \<Rightarrow> string list \<Rightarrow> string" where
  "join_decl counterVar n captures =
     ''var '' @ counterVar @ '' = '' @ dec n @ '', '' @ join '', '' captures @ '';''"

text \<open>The last branch of \<^verbatim>\<open>resolve_acts\<close>: the action has two or more needs.\<close>

definition synth_join :: "Action \<Rightarrow> slot_id list \<Rightarrow> TemplateContext \<Rightarrow> TemplateContext" where
  "synth_join act nds st =
     (let (counterVar, st1) = uid ''counter'' st;
          (actorVar, st2) = uid ''actor'' st1;
          (captures, st3) = uid_calls (map (\<lambda>s. slot (slots st2 s)) nds) st2;
          cm = fill_captures st3 (zip nds captures) [];
          st4 = st3\<lparr>lines := lines st3 @ [join_decl counterVar (length nds) captures]\<rparr>;
          st5 = st4\<lparr>roots := roots st4 @ [actorAct actorVar act cm]\<rparr>
      in queue_decr counterVar actorVar (a_inst act) (zip nds captures) st5)"

text \<open>One round of the outer loop of \<^verbatim>\<open>resolve_acts\<close>, on \<^verbatim>\<open>act = this.acts[i]\<close>. The
  assignment \<^verbatim>\<open>act.needs = needs\<close> changes the object that the array holds.\<close>

definition resolve_act :: "nat \<Rightarrow> Action \<Rightarrow> TemplateContext \<Rightarrow> error + TemplateContext" where
  "resolve_act i act0 st0 =
     (case collect_needs (wait act0) st0 of
        Inl err \<Rightarrow> Inl err
      | Inr (nds, st1) \<Rightarrow>
          (let act = act0\<lparr>needs := Some nds\<rparr>;
               st = st1\<lparr>acts := (acts st1)[i := act]\<rparr>
           in if length nds = 0 then Inr (st\<lparr>roots := roots st @ [act]\<rparr>)
              else if length nds = 1 then Inr (queue_on (nds ! 0) act st)
              else Inr (synth_join act nds st)))"

fun resolve_acts_from :: "nat \<Rightarrow> Action list \<Rightarrow> TemplateContext \<Rightarrow> error + TemplateContext" where
  "resolve_acts_from i [] st = Inr st"
| "resolve_acts_from i (act # rest) st =
     (case resolve_act i act st of
        Inl err \<Rightarrow> Inl err
      | Inr st1 \<Rightarrow> resolve_acts_from (Suc i) rest st1)"

definition resolve_acts :: "TemplateContext \<Rightarrow> error + TemplateContext" where
  "resolve_acts st = resolve_acts_from 0 (acts st) st"

section \<open>Code assembly\<close>

definition libs :: "(string \<times> string) list" where
  "libs = [(''fs'', ''fs'')]"

text \<open>One import declaration, \<^verbatim>\<open>var ${sym} = require("${path}");\<close>, for an entry of the
  import Map; a library that is not in \<^verbatim>\<open>libs\<close> would print as \<^verbatim>\<open>undefined\<close>.\<close>

definition import_decl :: "string \<times> string \<Rightarrow> string" where
  "import_decl e =
     ''var '' @ snd e @ '' = require('' @ [CHR 0x22] @
     (case map_of libs (fst e) of None \<Rightarrow> ''undefined'' | Some path \<Rightarrow> path) @
     [CHR 0x22] @ '');''"

text \<open>\<^verbatim>\<open>TemplateContext.emit_code()\<close>, with the bound \<open>n\<close> on the depth of nested callbacks.\<close>

definition emit_code :: "nat \<Rightarrow> TemplateContext \<Rightarrow> error + TemplateContext" where
  "emit_code n st =
     (let st1 = st\<lparr>lines := lines st @ map import_decl (tpl_imports st)\<rparr>;
          st2 = st1\<lparr>lines := lines st1 @ ['''']\<rparr>
      in emit_each (call_emit n) '''' (roots st2) st2)"

section \<open>The instance context\<close>

text \<open>\<^verbatim>\<open>InstanceContext.imports(name)\<close>: a library is imported once; a stored symbol is a
  result of \<open>uid\<close> and hence truthy.\<close>

definition InstanceContext_imports ::
  "inst_id \<Rightarrow> string \<Rightarrow> TemplateContext \<Rightarrow> error + (string \<times> TemplateContext)" where
  "InstanceContext_imports cs nm st =
     (case map_of (tpl_imports st) nm of
        Some s \<Rightarrow> Inr (s, st)
      | None \<Rightarrow>
          (case map_of libs nm of
             None \<Rightarrow> Inl (UnknownImport nm (inst_path st cs))
           | Some _ \<Rightarrow>
               (let (u, st1) = uid nm st
                in Inr (u, st1\<lparr>tpl_imports := tpl_imports st1 @ [(nm, u)]\<rparr>))))"

text \<open>\<^verbatim>\<open>new ValueSlot(name, type, slot, inst)\<close>, stored at the next free reference.\<close>

definition ValueSlot_new ::
  "string \<Rightarrow> string \<Rightarrow> string \<Rightarrow> inst_id \<Rightarrow> TemplateContext \<Rightarrow> slot_id \<times> TemplateContext" where
  "ValueSlot_new nm ty slotsym inst st =
     (n_slots st,
      st\<lparr>slots := (slots st)(n_slots st :=
             \<lparr>s_type = ty, slot = slotsym, queued = [], s_field = nm, s_inst = inst\<rparr>),
         n_slots := Suc (n_slots st)\<rparr>)"

text \<open>\<^verbatim>\<open>InstanceContext.slot(name, type)\<close> and \<^verbatim>\<open>InstanceContext.output(name, type)\<close>.\<close>

definition InstanceContext_slot ::
  "inst_id \<Rightarrow> string \<Rightarrow> string \<Rightarrow> TemplateContext \<Rightarrow> slot_id \<times> TemplateContext" where
  "InstanceContext_slot cs nm ty st =
     (let (u, st1) = uid nm st in ValueSlot_new nm ty u cs st1)"

definition InstanceContext_output ::
  "inst_id \<Rightarrow> string \<Rightarrow> string \<Rightarrow> TemplateContext \<Rightarrow> slot_id \<times> TemplateContext" where
  "InstanceContext_output cs nm ty st =
     (let (u, st1) = uid nm st;
          (d, st2) = ValueSlot_new nm ty u cs st1
      in (d, st2\<lparr>insts := (insts st2)(cs :=
                   (insts st2 cs)\<lparr>i_fields := (i_fields (insts st2 cs))(nm \<mapsto> d)\<rparr>)\<rparr>))"

text \<open>
  The constructor of \<^verbatim>\<open>Binding\<close>. The argument Map of a use-site holds references and
  literals; a name it does not hold reads as \<^verbatim>\<open>null\<close>. A default that is not given is
  \<^verbatim>\<open>undefined\<close>, and \<^verbatim>\<open>undefined != null\<close> is false.
\<close>

definition Binding_new ::
  "string \<Rightarrow> string \<Rightarrow> inst_id \<Rightarrow> jsval option \<Rightarrow> TemplateContext \<Rightarrow> error + Binding" where
  "Binding_new nm ty inst defaultValue st =
     (case (case i_args (insts st inst) nm of
              Some r \<Rightarrow> Inr r
            | None \<Rightarrow>
                (case defaultValue of
                   Some v \<Rightarrow>
                     (case v of
                        JStr _ \<Rightarrow> Inr (SrcLit \<lparr>l_type = ''text'', l_value = v\<rparr>)
                      | _ \<Rightarrow> Inr (SrcLit \<lparr>l_type = typeof v, l_value = v\<rparr>))
                 | None \<Rightarrow> Inl (MissingField nm (inst_path st inst)))) of
        Inl err \<Rightarrow> Inl err
      | Inr r \<Rightarrow>
          Inr \<lparr>b_to = r, b_type = ty, b_field = nm, b_inst = inst, resolved = None\<rparr>)"

text \<open>\<^verbatim>\<open>TemplateContext.bind_to\<close> and \<^verbatim>\<open>InstanceContext.input\<close>.\<close>

definition bind_to ::
  "string \<Rightarrow> string \<Rightarrow> inst_id \<Rightarrow> jsval option \<Rightarrow> TemplateContext \<Rightarrow>
   error + (bind_id \<times> TemplateContext)" where
  "bind_to nm ty inst defaultValue st =
     (case Binding_new nm ty inst defaultValue st of
        Inl err \<Rightarrow> Inl err
      | Inr d \<Rightarrow>
          Inr (n_binds st,
               st\<lparr>binds := (binds st)(n_binds st := d),
                  n_binds := Suc (n_binds st),
                  bindings := bindings st @ [n_binds st]\<rparr>))"

definition InstanceContext_input ::
  "inst_id \<Rightarrow> string \<Rightarrow> string \<Rightarrow> jsval option \<Rightarrow> TemplateContext \<Rightarrow>
   error + (bind_id \<times> TemplateContext)" where
  "InstanceContext_input cs nm ty defaultValue st = bind_to nm ty cs defaultValue st"

text \<open>\<^verbatim>\<open>InstanceContext.action(deps, emit)\<close>; \<^verbatim>\<open>needs\<close> is not set yet.\<close>

definition InstanceContext_action ::
  "inst_id \<Rightarrow> dep list \<Rightarrow> cmd list \<Rightarrow> TemplateContext \<Rightarrow> TemplateContext" where
  "InstanceContext_action cs deps em st =
     st\<lparr>acts := acts st @ [\<lparr>wait = deps, emit = em, a_inst = cs, needs = None\<rparr>]\<rparr>"

section \<open>Building and compiling a graph\<close>

definition TemplateContext_new :: "string \<Rightarrow> TemplateContext" where
  "TemplateContext_new nm =
     \<lparr>name = nm, tpl_imports = [], uidMap = (\<lambda>_. 0), bound = (\<lambda>_. None), lines = [],
      bindings = [], acts = [], roots = [],
      insts = (\<lambda>_. \<lparr>i_fields = (\<lambda>_. None), i_args = (\<lambda>_. None), i_where = []\<rparr>),
      slots = (\<lambda>_. \<lparr>s_type = [], slot = [], queued = [], s_field = [], s_inst = 0\<rparr>),
      binds = (\<lambda>_. \<lparr>b_to = SrcRef \<lparr>r_name = [], r_path = []\<rparr>, b_type = [], b_field = [],
                     b_inst = 0, resolved = None\<rparr>),
      n_insts = 0, n_slots = 0, n_binds = 0\<rparr>"

text \<open>\<^verbatim>\<open>new InstanceContext(tpl, args, where)\<close>, stored at the next free reference.\<close>

definition InstanceContext_new ::
  "(string \<Rightarrow> source option) \<Rightarrow> string \<Rightarrow> TemplateContext \<Rightarrow> inst_id \<times> TemplateContext" where
  "InstanceContext_new as wh st =
     (n_insts st,
      st\<lparr>insts := (insts st)(n_insts st :=
             \<lparr>i_fields = (\<lambda>_. None), i_args = as, i_where = wh\<rparr>),
         n_insts := Suc (n_insts st)\<rparr>)"

text \<open>\<^verbatim>\<open>TemplateContext.bind_inst(id, inst)\<close>: an instance object is truthy.\<close>

definition bind_inst :: "string \<Rightarrow> inst_id \<Rightarrow> TemplateContext \<Rightarrow> error + TemplateContext" where
  "bind_inst ident inst st =
     (case bound st ident of
        Some _ \<Rightarrow> Inl (DuplicateId ident (inst_path st inst))
      | None \<Rightarrow> Inr (st\<lparr>bound := (bound st)(ident \<mapsto> inst)\<rparr>))"

text \<open>A use-site of the graph, and a component definition: a function of the instance
  context that declares inputs, outputs and actions.\<close>

record use_site =
  u_is :: string
  u_id :: string
  u_args :: "string \<Rightarrow> source option"

type_synonym component = "inst_id \<Rightarrow> TemplateContext \<Rightarrow> error + TemplateContext"

text \<open>The loop of \<^verbatim>\<open>generate\<close> over the use-sites; \<open>components\<close> is the registry.\<close>

fun expand ::
  "(string \<Rightarrow> component option) \<Rightarrow> use_site list \<Rightarrow> TemplateContext \<Rightarrow> error + TemplateContext" where
  "expand components [] st = Inr st"
| "expand components (item # rest) st =
     (case components (u_is item) of
        None \<Rightarrow> Inl (MissingDefn (u_is item))
      | Some defn \<Rightarrow>
          (let (cs, st1) = InstanceContext_new (u_args item) (u_is item @ '':'' @ u_id item) st
           in case bind_inst (u_id item) cs st1 of
                Inl err \<Rightarrow> Inl err
              | Inr st2 \<Rightarrow>
                  (case defn cs st2 of
                     Inl err \<Rightarrow> Inl err
                   | Inr st3 \<Rightarrow> expand components rest st3)))"

text \<open>\<^verbatim>\<open>generate(ast)\<close>: the result is the line sequence handed to \<^verbatim>\<open>write\<close>; nothing is
  written when a step fails.\<close>

definition generate ::
  "(string \<Rightarrow> component option) \<Rightarrow> nat \<Rightarrow> use_site list \<Rightarrow> error + string list" where
  "generate components n ast =
     (case expand components ast (TemplateContext_new ''main'') of
        Inl err \<Rightarrow> Inl err
      | Inr st1 \<Rightarrow>
          (case resolve_acts st1 of
             Inl err \<Rightarrow> Inl err
           | Inr st2 \<Rightarrow>
               (case emit_code n st2 of
                  Inl err \<Rightarrow> Inl err
                | Inr st3 \<Rightarrow> Inr (lines st3))))"

section \<open>Component definitions of the repository\<close>

text \<open>The text components of the registry, written against the instance context as in
  the source. A symbol such as \<^verbatim>\<open>${fs}\<close> or \<^verbatim>\<open>${data.slot}\<close> is fixed when the callback
  is created.\<close>

definition ReadText :: component where
  "ReadText cs st =
     (case InstanceContext_imports cs ''fs'' st of
        Inl err \<Rightarrow> Inl err
      | Inr (fs, st1) \<Rightarrow>
          (case InstanceContext_input cs ''filename'' ''text'' None st1 of
             Inl err \<Rightarrow> Inl err
           | Inr (filename, st2) \<Rightarrow>
               (let (data, st3) = InstanceContext_output cs ''out'' ''text'' st2
                in Inr (InstanceContext_action cs [DBind filename]
                     [Emit [Txt (fs @ ''.readFile(''), Str (DBind filename),
                            Txt ('', '' @ [CHR 0x27] @ ''utf8'' @ [CHR 0x27] @
                                 '', function (err, '' @ slot (slots st3 data) @ '') {'')],
                      Emit [Txt ''  if (err) throw err;''],
                      EmitTriggered (OSlot data) ''  '',
                      Emit [Txt ''});'']] st3))))"

definition WriteText :: component where
  "WriteText cs st =
     (case InstanceContext_imports cs ''fs'' st of
        Inl err \<Rightarrow> Inl err
      | Inr (fs, st1) \<Rightarrow>
          (case InstanceContext_input cs ''filename'' ''text'' None st1 of
             Inl err \<Rightarrow> Inl err
           | Inr (filename, st2) \<Rightarrow>
               (case InstanceContext_input cs ''in'' ''text'' None st2 of
                  Inl err \<Rightarrow> Inl err
                | Inr (data, st3) \<Rightarrow>
                    Inr (InstanceContext_action cs [DBind filename, DBind data]
                      [Emit [Txt (fs @ ''.writeFile(''), Str (DBind filename), Txt '', '',
                             Str (DBind data),
                             Txt ('', '' @ [CHR 0x27] @ ''utf8'' @ [CHR 0x27] @
                                  '', function (err) {'')],
                       Emit [Txt ''  if (err) throw err;''],
                       Emit [Txt ''});'']] st3))))"

definition ConcatText :: component where
  "ConcatText cs st =
     (case InstanceContext_input cs ''left'' ''text'' None st of
        Inl err \<Rightarrow> Inl err
      | Inr (left, st1) \<Rightarrow>
          (case InstanceContext_input cs ''right'' ''text'' None st1 of
             Inl err \<Rightarrow> Inl err
           | Inr (right, st2) \<Rightarrow>
               (let (out, st3) = InstanceContext_output cs ''out'' ''text'' st2
                in Inr (InstanceContext_action cs [DBind left, DBind right]
                     [Emit [Txt (''const '' @ slot (slots st3 out) @ '' = ''),
                            Str (DBind left), Txt '' + '', Str (DBind right), Txt '';''],
                      EmitTriggered (OSlot out) ''''] st3))))"

definition LogText :: component where
  "LogText cs st =
     (case InstanceContext_input cs ''in'' ''text'' None st of
        Inl err \<Rightarrow> Inl err
      | Inr (data, st1) \<Rightarrow>
          Inr (InstanceContext_action cs [DBind data]
            [Emit [Txt ''console.log('', Str (DBind data), Txt '');'']] st1))"

definition ParseJSON :: component where
  "ParseJSON cs st =
     (case InstanceContext_input cs ''in'' ''text'' None st of
        Inl err \<Rightarrow> Inl err
      | Inr (inp, st1) \<Rightarrow>
          (let (out, st2) = InstanceContext_output cs ''out'' ''json'' st1
           in Inr (InstanceContext_action cs [DBind inp]
                [Emit [Txt (''const '' @ slot (slots st2 out) @ '' = JSON.parse(''),
                       Str (DBind inp), Txt '');''],
                 EmitTriggered (OSlot out) ''''] st2)))"

definition EncodeJSON :: component where
  "EncodeJSON cs st =
     (case InstanceContext_input cs ''in'' ''json'' None st of
        Inl err \<Rightarrow> Inl err
      | Inr (inp, st1) \<Rightarrow>
          (let (out, st2) = InstanceContext_output cs ''out'' ''text'' st1
           in Inr (InstanceContext_action cs [DBind inp]
                [Emit [Txt (''const '' @ slot (slots st2 out) @ '' = JSON.stringify(''),
                       Str (DBind inp), Txt '');''],
                 EmitTriggered (OSlot out) ''''] st2)))"

definition components :: "string \<Rightarrow> component option" where
  "components =
     map_of [(''ReadText'', ReadText), (''WriteText'', WriteText), (''LogText'', LogText),
             (''ParseJSON'', ParseJSON), (''EncodeJSON'', EncodeJSON),
             (''ConcatText'', ConcatText)]"

text \<open>The helpers \<^verbatim>\<open>text\<close>, \<^verbatim>\<open>ref\<close> and \<^verbatim>\<open>use\<close> that build a graph description.\<close>

definition text_lit :: "string \<Rightarrow> source" where
  "text_lit str = SrcLit \<lparr>l_type = ''text'', l_value = JStr str\<rparr>"

definition ref :: "string \<Rightarrow> source" where
  "ref str = SrcRef (Reference_new str)"

definition use :: "string \<Rightarrow> string \<Rightarrow> (string \<times> source) list \<Rightarrow> use_site" where
  "use kind ident as = \<lparr>u_is = kind, u_id = ident, u_args = map_of as\<rparr>"

section \<open>Notions used to state the properties\<close>

text \<open>Sequencing of two steps that can fail: the second runs on the result of the first.\<close>

definition bind_r :: "error + 'a \<Rightarrow> ('a \<Rightarrow> error + 'b) \<Rightarrow> error + 'b" where
  "bind_r r f = (case r of Inl err \<Rightarrow> Inl err | Inr x \<Rightarrow> f x)"


text \<open>
  The attribute \<^verbatim>\<open>needs\<close> in the words of the specification: the entries of the wait list
  whose resolved end-point is not a constant, read off the memo fields of the bindings.
\<close>

definition dep_endpoint :: "TemplateContext \<Rightarrow> dep \<Rightarrow> endpoint option" where
  "dep_endpoint st d = (case d of DBind b \<Rightarrow> resolved (binds st b) | DSlot s \<Rightarrow> Some (Slot s))"

fun spec_needs :: "TemplateContext \<Rightarrow> dep list \<Rightarrow> slot_id list" where
  "spec_needs st [] = []"
| "spec_needs st (d # ds) =
     (case dep_endpoint st d of Some (Slot s) \<Rightarrow> s # spec_needs st ds | _ \<Rightarrow> spec_needs st ds)"

text \<open>
  The symbols and the counters that a sequence of calls of \<open>uid\<close> produces, as functions
  of the counter map alone, and the effect of the helper-queueing loop of a join on the
  store of slots alone.
\<close>

fun uid_syms :: "(string \<Rightarrow> nat) \<Rightarrow> string list \<Rightarrow> string list" where
  "uid_syms m [] = []"
| "uid_syms m (nm # nms) = (nm @ ''_'' @ dec (m nm + 1)) # uid_syms (m(nm := m nm + 1)) nms"

fun uid_map :: "(string \<Rightarrow> nat) \<Rightarrow> string list \<Rightarrow> (string \<Rightarrow> nat)" where
  "uid_map m [] = m"
| "uid_map m (nm # nms) = uid_map (m(nm := m nm + 1)) nms"

fun decr_slots ::
  "string \<Rightarrow> string \<Rightarrow> inst_id \<Rightarrow> (slot_id \<times> string) list \<Rightarrow> (slot_id \<Rightarrow> ValueSlot) \<Rightarrow>
   (slot_id \<Rightarrow> ValueSlot)" where
  "decr_slots c a inst [] sl = sl"
| "decr_slots c a inst ((need, cap) # rest) sl =
     decr_slots c a inst rest
       (sl(need := (sl need)\<lparr>queued := queued (sl need) @
                                 [decrAct c a inst need (slot (sl need)) cap]\<rparr>))"

text \<open>\<open>memo_le st st'\<close>: every binding that is resolved in \<open>st\<close> holds the same end-point
  in \<open>st'\<close>.\<close>

definition memo_le :: "TemplateContext \<Rightarrow> TemplateContext \<Rightarrow> bool" where
  "memo_le st st' = (\<forall>b e. resolved (binds st b) = Some e \<longrightarrow> resolved (binds st' b) = Some e)"


text \<open>
  An action registered by a component has its \<^verbatim>\<open>needs\<close> set by the scheduler; the actor
  and helper actions that the scheduler creates never get the field. \<open>n_needs\<close> is the
  number of needs of a scheduled action.
\<close>

definition registered :: "Action \<Rightarrow> bool" where
  "registered a = (needs a \<noteq> None)"

definition n_needs :: "Action \<Rightarrow> nat" where
  "n_needs a = (case needs a of None \<Rightarrow> 0 | Some nds \<Rightarrow> length nds)"

text \<open>
  \<open>root_of r a\<close>: the root \<open>r\<close> comes from the scheduled action \<open>a\<close>, which is either the
  action itself (no needs) or the actor of its join (two or more needs).
  \<open>decl_of d a\<close>: the line \<open>d\<close> is the declaration of the counter and the captures of the
  join of \<open>a\<close>.
\<close>

definition root_of :: "Action \<Rightarrow> Action \<Rightarrow> bool" where
  "root_of r a =
     ((n_needs a = 0 \<and> r = a) \<or> (2 \<le> n_needs a \<and> (\<exists>v cm. r = actorAct v a cm)))"

definition decl_of :: "string \<Rightarrow> Action \<Rightarrow> bool" where
  "decl_of d a = (\<exists>c caps. d = join_decl c (n_needs a) caps \<and> length caps = n_needs a)"

text \<open>
  The text of a template literal in a context without capture map, read off a state in
  which the bindings it mentions are resolved: a constant prints as its JSON text, a slot
  as its symbol. \<open>bound_pieces st ps\<close> says that every binding mentioned in \<open>ps\<close> is
  resolved in \<open>st\<close>, which the scheduler ensures for the bindings of a wait list.
\<close>

definition piece_text :: "TemplateContext \<Rightarrow> piece \<Rightarrow> string" where
  "piece_text st p =
     (case p of
        Txt t \<Rightarrow> t
      | Str d \<Rightarrow>
          (case dep_endpoint st d of
             None \<Rightarrow> []
           | Some (Lit l) \<Rightarrow> JSON_stringify (l_value l)
           | Some (Slot s) \<Rightarrow> slot (slots st s)))"

definition line_text :: "TemplateContext \<Rightarrow> piece list \<Rightarrow> string" where
  "line_text st ps = concat (map (piece_text st) ps)"

definition bound_pieces :: "TemplateContext \<Rightarrow> piece list \<Rightarrow> bool" where
  "bound_pieces st ps =
     list_all (\<lambda>p. case p of Txt t \<Rightarrow> True | Str d \<Rightarrow> dep_endpoint st d \<noteq> None) ps"

text \<open>Example graphs: the graph compiled by the repository's entry point, a join of two
  file reads, a reference to an instance that does not exist, two uses of one output, and
  two actions that print constants.\<close>

definition main_graph :: "use_site list" where
  "main_graph =
     [use ''WriteText'' ''wr'' [(''filename'', text_lit ''copy.json''), (''in'', ref ''cc2.out'')],
      use ''EncodeJSON'' ''je'' [(''in'', ref ''jp.out'')],
      use ''ParseJSON'' ''jp'' [(''in'', ref ''rd.out'')],
      use ''ReadText'' ''rd'' [(''filename'', text_lit ''../curseof/package.json'')],
      use ''ReadText'' ''rd2'' [(''filename'', text_lit ''../curseof/package.json'')],
      use ''ConcatText'' ''cc1'' [(''left'', ref ''je.out''), (''right'', text_lit '' and DONE.'')],
      use ''ConcatText'' ''cc2'' [(''left'', ref ''cc1.out''), (''right'', ref ''rd2.out'')],
      use ''LogText'' ''log1'' [(''in'', ref ''cc2.out'')]]"


definition dangling_graph :: "use_site list" where
  "dangling_graph = [use ''LogText'' ''log1'' [(''in'', ref ''nosuch.out'')]]"

definition mismatch_graph :: "use_site list" where
  "mismatch_graph =
     [use ''ReadText'' ''rd'' [(''filename'', text_lit ''in.txt'')],
      use ''EncodeJSON'' ''je'' [(''in'', ref ''rd.out'')]]"

definition shared_graph :: "use_site list" where
  "shared_graph =
     [use ''ReadText'' ''rd'' [(''filename'', text_lit ''in.txt'')],
      use ''LogText'' ''l1'' [(''in'', ref ''rd.out'')],
      use ''LogText'' ''l2'' [(''in'', ref ''rd.out'')]]"

definition literal_logs_graph :: "use_site list" where
  "literal_logs_graph =
     [use ''LogText'' ''l1'' [(''in'', text_lit ''first'')],
      use ''LogText'' ''l2'' [(''in'', text_lit ''second'')]]"

text \<open>The template context of a graph once its use-sites are expanded (the new context
  when the expansion fails).\<close>

definition built :: "use_site list \<Rightarrow> TemplateContext" where
  "built g =
     (case expand components g (TemplateContext_new ''main'') of
        Inl _ \<Rightarrow> TemplateContext_new ''main''
      | Inr st \<Rightarrow> st)"

section \<open>Properties of the symbol generator\<close>

lemma digit_char_not_underscore: "d < 10 \<Longrightarrow> digit_char d \<noteq> CHR ''_''"
proof -
  assume "d < 10"
  then have "d \<in> {0,1,2,3,4,5,6,7,8,9}" by auto
  then show ?thesis by (auto simp: digit_char_def)
qed

lemma digit_char_inj: "d < 10 \<Longrightarrow> e < 10 \<Longrightarrow> digit_char d = digit_char e \<Longrightarrow> d = e"
proof -
  assume a: "d < 10" "e < 10" "digit_char d = digit_char e"
  have dist: "distinct ''0123456789''" by simp
  have len: "length ''0123456789'' = 10" by simp
  from a show ?thesis
    unfolding digit_char_def using dist len
    by (metis nth_eq_iff_index_eq)
qed

lemma dec_no_underscore: "CHR ''_'' \<notin> set (dec n)"
proof (induction n rule: dec.induct)
  case (1 n)
  show ?case
  proof (cases "n < 10")
    case True
    then show ?thesis using digit_char_not_underscore[of n] by (subst dec.simps) simp
  next
    case False
    then show ?thesis using 1 digit_char_not_underscore[of "n mod 10"]
      by (subst dec.simps) simp
  qed
qed

lemma dec_nonempty: "dec n \<noteq> []"
  by (subst dec.simps) simp

lemma dec_inj: "dec n = dec m \<Longrightarrow> n = m"
proof (induction n arbitrary: m rule: dec.induct)
  case (1 n)
  show ?case
  proof (cases "n < 10")
    case n: True
    show ?thesis
    proof (cases "m < 10")
      case True
      with n 1(2) show ?thesis by (simp add: dec.simps[of n] dec.simps[of m] digit_char_inj)
    next
      case False
      have "dec m = dec (m div 10) @ [digit_char (m mod 10)]" using False by (subst dec.simps) simp
      moreover have "dec n = [digit_char n]" using n by (subst dec.simps) simp
      ultimately show ?thesis using 1(2) dec_nonempty[of "m div 10"] by simp
    qed
  next
    case n: False
    have dn: "dec n = dec (n div 10) @ [digit_char (n mod 10)]" using n by (subst dec.simps) simp
    show ?thesis
    proof (cases "m < 10")
      case True
      then have "dec m = [digit_char m]" by (subst dec.simps) simp
      then show ?thesis using dn 1(2) dec_nonempty[of "n div 10"] by simp
    next
      case False
      have dm: "dec m = dec (m div 10) @ [digit_char (m mod 10)]" using False by (subst dec.simps) simp
      from dn dm 1(2) have e1: "dec (n div 10) = dec (m div 10)"
        and e2: "digit_char (n mod 10) = digit_char (m mod 10)" by simp_all
      from 1(1)[OF n e1] have "n div 10 = m div 10" .
      moreover from e2 have "n mod 10 = m mod 10" by (simp add: digit_char_inj)
      ultimately show ?thesis by (metis div_mult_mod_eq)
    qed
  qed
qed

lemma split_at_sep:
  assumes "x \<notin> set u" "x \<notin> set v" "u @ x # a = v @ x # b"
  shows "u = v \<and> a = b"
  using assms
proof (induction u arbitrary: v)
  case Nil
  then show ?case by (cases v) auto
next
  case (Cons c u)
  then show ?case by (cases v) auto
qed

lemma symbol_split:
  assumes "b @ ''_'' @ dec n = b' @ ''_'' @ dec n'"
  shows "b = b' \<and> n = n'"
proof -
  have "rev (b @ ''_'' @ dec n) = rev (b' @ ''_'' @ dec n')"
    using assms by (rule arg_cong)
  then have eq: "rev (dec n) @ CHR ''_'' # rev b = rev (dec n') @ CHR ''_'' # rev b'"
    by simp
  have n1: "CHR ''_'' \<notin> set (rev (dec n))" and n2: "CHR ''_'' \<notin> set (rev (dec n'))"
    using dec_no_underscore by simp_all
  have "rev (dec n) = rev (dec n') \<and> rev b = rev b'"
    by (rule split_at_sep[OF n1 n2 eq])
  then show ?thesis using dec_inj by simp
qed

lemma uid_fst: "fst (uid b st) = b @ ''_'' @ dec (Suc (uidMap st b))"
  by (simp add: uid_def)

lemma uid_snd_uidMap: "uidMap (snd (uid b st)) = (uidMap st)(b := Suc (uidMap st b))"
  by (simp add: uid_def)

lemma uid_calls_fresh:
  "u \<in> set (fst (uid_calls nms st)) \<Longrightarrow> \<exists>b k. u = b @ ''_'' @ dec k \<and> uidMap st b < k"
proof (induction nms arbitrary: st)
  case Nil
  then show ?case by simp
next
  case (Cons nm nms)
  obtain u1 st1 where u1: "uid nm st = (u1, st1)" by (cases "uid nm st")
  obtain us st2 where us: "uid_calls nms st1 = (us, st2)" by (cases "uid_calls nms st1")
  from Cons.prems u1 us have "u = u1 \<or> u \<in> set us" by simp
  then show ?case
  proof
    assume "u = u1"
    then have "u = nm @ ''_'' @ dec (Suc (uidMap st nm))" using u1 uid_fst[of nm st] by simp
    then show ?thesis by blast
  next
    assume "u \<in> set us"
    then have "u \<in> set (fst (uid_calls nms st1))" using us by simp
    from Cons.IH[OF this] obtain b k where bk: "u = b @ ''_'' @ dec k" "uidMap st1 b < k" by blast
    have "uidMap st1 = (uidMap st)(nm := Suc (uidMap st nm))"
      using u1 uid_snd_uidMap[of nm st] by simp
    then have "uidMap st b \<le> uidMap st1 b" by simp
    with bk show ?thesis by (metis le_less_trans)
  qed
qed

lemma uid_calls_distinct: "distinct (fst (uid_calls nms st))"
proof (induction nms arbitrary: st)
  case Nil
  then show ?case by simp
next
  case (Cons nm nms)
  obtain u1 st1 where u1: "uid nm st = (u1, st1)" by (cases "uid nm st")
  obtain us st2 where us: "uid_calls nms st1 = (us, st2)" by (cases "uid_calls nms st1")
  have d: "distinct us" using Cons.IH[of st1] us by simp
  have u1_eq: "u1 = nm @ ''_'' @ dec (Suc (uidMap st nm))" using u1 uid_fst[of nm st] by simp
  have m1: "uidMap st1 nm = Suc (uidMap st nm)" using u1 uid_snd_uidMap[of nm st] by simp
  have "u1 \<notin> set us"
  proof
    assume "u1 \<in> set us"
    then have "u1 \<in> set (fst (uid_calls nms st1))" using us by simp
    from uid_calls_fresh[OF this] obtain b k where bk: "u1 = b @ ''_'' @ dec k" "uidMap st1 b < k"
      by blast
    from bk(1) u1_eq have "nm @ ''_'' @ dec (Suc (uidMap st nm)) = b @ ''_'' @ dec k" by simp
    then have "nm = b \<and> Suc (uidMap st nm) = k" by (rule symbol_split)
    with bk(2) m1 show False by auto
  qed
  with d u1 us show ?case by simp
qed

text \<open>
  Claim C10. Whatever the template context, the symbols returned by a sequence of calls
  of \<open>uid\<close> are pairwise distinct. A call for the base name \<open>b\<close> returns \<open>b\<close>, an
  underscore and the text of the counter of \<open>b\<close>, which the call increases by one; the
  text of a counter holds no underscore, so two calls return the same symbol only when
  they have the same base name and the same counter. (Counters are natural numbers here:
  the JavaScript number stays exact below \<open>2^53\<close> calls.)
\<close>

theorem uid_symbols_distinct:
  "distinct (fst (uid_calls nms st))
   \<and> fst (uid b st) = b @ ''_'' @ dec (uidMap st b + 1)
   \<and> uidMap (snd (uid b st)) b = uidMap st b + 1
   \<and> uidMap st b < uidMap (snd (uid b st)) b
   \<and> CHR ''_'' \<notin> set (dec n)
   \<and> (fst (uid b st) = fst (uid b' st') \<longleftrightarrow> b = b' \<and> uidMap st b = uidMap st' b')"
proof -
  have "fst (uid b st) = fst (uid b' st') \<longleftrightarrow> b = b' \<and> uidMap st b = uidMap st' b'"
    using symbol_split[of b "Suc (uidMap st b)" b' "Suc (uidMap st' b')"]
    by (auto simp: uid_fst)
  then show ?thesis
    using uid_calls_distinct[of nms st] dec_no_underscore[of n]
    by (simp add: uid_fst uid_snd_uidMap)
qed

section \<open>Evaluation of the examples\<close>

lemma bind_r_Inl [simp]: "bind_r (Inl err) f = Inl err"
  by (simp add: bind_r_def)

lemma bind_r_Inr [simp]: "bind_r (Inr x) f = f x"
  by (simp add: bind_r_def)

lemmas api_defs = InstanceContext_imports_def ValueSlot_new_def InstanceContext_slot_def
  InstanceContext_output_def Binding_new_def bind_to_def InstanceContext_input_def
  InstanceContext_action_def TemplateContext_new_def InstanceContext_new_def bind_inst_def
  inst_path_def uid_def libs_def

lemmas graph_defs = components_def ReadText_def WriteText_def ConcatText_def LogText_def
  ParseJSON_def EncodeJSON_def use_def text_lit_def ref_def Reference_new_def

lemmas eval_defs = built_def api_defs graph_defs dec.simps digit_char_def Let_def

section \<open>Properties of inputs, bindings and references\<close>

text \<open>
  Claim C8. When the argument map of the use-site omits the field named by an input
  declaration: with a default value, \<open>InstanceContext_input\<close> returns a new binding whose
  source is a literal holding that default (typed \<^verbatim>\<open>text\<close> for a string, by \<^verbatim>\<open>typeof\<close>
  otherwise), and that source resolves to this literal; with no default, the
  compilation aborts with the missing-field diagnostic.
\<close>

theorem input_omitted_field:
  assumes "i_args (insts st cs) nm = None"
  shows "(\<exists>st'. InstanceContext_input cs nm ty (Some v) st = Inr (n_binds st, st')
            \<and> b_to (binds st' (n_binds st)) =
                SrcLit \<lparr>l_type = (case v of JStr _ \<Rightarrow> ''text'' | _ \<Rightarrow> typeof v), l_value = v\<rparr>
            \<and> source_resolve (b_to (binds st' (n_binds st))) st' =
                Inr (TEnd (Lit \<lparr>l_type = (case v of JStr _ \<Rightarrow> ''text'' | _ \<Rightarrow> typeof v),
                                l_value = v\<rparr>)))
         \<and> InstanceContext_input cs nm ty None st = Inl (MissingField nm (inst_path st cs))"
  using assms
  by (cases v) (simp_all add: InstanceContext_input_def bind_to_def Binding_new_def source_resolve_def)

theorem input_omitted_field_witness:
  "i_args (insts (snd (InstanceContext_new (\<lambda>_. None) ''WebGLCanvas:canvas'' (TemplateContext_new ''main''))) 0) ''alpha'' = None
   \<and> (\<exists>st'. InstanceContext_input 0 ''alpha'' ''boolean'' (Some (JBool False))
               (snd (InstanceContext_new (\<lambda>_. None) ''WebGLCanvas:canvas'' (TemplateContext_new ''main'')))
               = Inr (0, st')
            \<and> b_to (binds st' 0) = SrcLit \<lparr>l_type = ''boolean'', l_value = JBool False\<rparr>)
   \<and> InstanceContext_input 0 ''alpha'' ''boolean'' None
        (snd (InstanceContext_new (\<lambda>_. None) ''WebGLCanvas:canvas'' (TemplateContext_new ''main'')))
        = Inl (MissingField ''alpha'' ''WebGLCanvas:canvas in main'')"
proof -
  let ?st = "snd (InstanceContext_new (\<lambda>_. None) ''WebGLCanvas:canvas'' (TemplateContext_new ''main''))"
  have h: "i_args (insts ?st 0) ''alpha'' = None"
    by (simp add: InstanceContext_new_def TemplateContext_new_def)
  have n: "n_binds ?st = 0" "inst_path ?st 0 = ''WebGLCanvas:canvas in main''"
    by (simp_all add: InstanceContext_new_def TemplateContext_new_def inst_path_def)
  show ?thesis
    using h n input_omitted_field[OF h, of "''boolean''" "JBool False"]
    by (auto simp: typeof_def)
qed

text \<open>
  Claim C5. For a binding that is resolved for the first time (its memo field is empty):
  when its source resolves to a terminal end-point whose type tag differs from the declared
  type, \<open>Binding_resolve\<close> aborts with the type-mismatch diagnostic that names the field,
  the declared type, the type found and the instance; when it returns an end-point, that
  end-point is the one the source resolves to and its type tag equals the declared type, so
  no value is coerced.
\<close>

theorem binding_type_mismatch:
  assumes "resolved (binds st b) = None"
  shows "(source_resolve (b_to (binds st b)) st = Inr (TEnd e) \<longrightarrow>
          endpoint_type st e \<noteq> b_type (binds st b) \<longrightarrow>
          Binding_resolve b st =
            Inl (TypeMismatch (b_field (binds st b)) (b_type (binds st b)) (endpoint_type st e)
                   (inst_path st (b_inst (binds st b)))))
       \<and> (Binding_resolve b st = Inr (e', st') \<longrightarrow>
            source_resolve (b_to (binds st b)) st = Inr (TEnd e')
            \<and> endpoint_type st e' = b_type (binds st b))"
  using assms
  by (auto simp: Binding_resolve_def type_mismatch_def split: sum.splits target.splits if_splits)

lemma mismatch_binds:
  "binds (built mismatch_graph) (Suc 0) =
     \<lparr>b_to = SrcRef \<lparr>r_name = ''rd.out'', r_path = [''rd'', ''out'']\<rparr>, b_type = ''json'',
      b_field = ''in'', b_inst = Suc 0, resolved = None\<rparr>"
  "binds (built mismatch_graph) 0 =
     \<lparr>b_to = SrcLit \<lparr>l_type = ''text'', l_value = JStr ''in.txt''\<rparr>, b_type = ''text'',
      b_field = ''filename'', b_inst = 0, resolved = None\<rparr>"
  by (simp_all add: mismatch_graph_def eval_defs)

lemma mismatch_resolve:
  "source_resolve (SrcRef \<lparr>r_name = ''rd.out'', r_path = [''rd'', ''out'']\<rparr>) (built mismatch_graph)
     = Inr (TEnd (Slot 0))"
  by (simp add: mismatch_graph_def eval_defs source_resolve_def Reference_resolve_def resolve_path_def)

lemma mismatch_misc:
  "s_type (slots (built mismatch_graph) 0) = ''text''"
  "inst_path (built mismatch_graph) (Suc 0) = ''EncodeJSON:je in main''"
  by (simp_all add: mismatch_graph_def eval_defs)

theorem binding_type_mismatch_witness:
  "resolved (binds (built mismatch_graph) (Suc 0)) = None
   \<and> source_resolve (b_to (binds (built mismatch_graph) (Suc 0))) (built mismatch_graph) =
       Inr (TEnd (Slot 0))
   \<and> endpoint_type (built mismatch_graph) (Slot 0) = ''text''
   \<and> b_type (binds (built mismatch_graph) (Suc 0)) = ''json''
   \<and> Binding_resolve (Suc 0) (built mismatch_graph) =
        Inl (TypeMismatch ''in'' ''json'' ''text'' ''EncodeJSON:je in main'')
   \<and> resolved (binds (built mismatch_graph) 0) = None
   \<and> (\<exists>st'. Binding_resolve 0 (built mismatch_graph) =
               Inr (Lit \<lparr>l_type = ''text'', l_value = JStr ''in.txt''\<rparr>, st'))
   \<and> endpoint_type (built mismatch_graph) (Lit \<lparr>l_type = ''text'', l_value = JStr ''in.txt''\<rparr>) =
       b_type (binds (built mismatch_graph) 0)"
proof -
  let ?st = "built mismatch_graph"
  let ?lit = "Lit \<lparr>l_type = ''text'', l_value = JStr ''in.txt''\<rparr>"
  have h1: "resolved (binds ?st (Suc 0)) = None" by (simp add: mismatch_binds)
  have h2: "source_resolve (b_to (binds ?st (Suc 0))) ?st = Inr (TEnd (Slot 0))"
    by (simp add: mismatch_binds mismatch_resolve)
  have h3: "endpoint_type ?st (Slot 0) \<noteq> b_type (binds ?st (Suc 0))"
    by (simp add: endpoint_type_def mismatch_binds mismatch_misc)
  from binding_type_mismatch[OF h1, of "Slot 0"] h2 h3
  have r1: "Binding_resolve (Suc 0) ?st =
          Inl (TypeMismatch (b_field (binds ?st (Suc 0))) (b_type (binds ?st (Suc 0)))
                 (endpoint_type ?st (Slot 0)) (inst_path ?st (b_inst (binds ?st (Suc 0)))))"
    by blast
  have h4: "resolved (binds ?st 0) = None" by (simp add: mismatch_binds)
  have h5: "Binding_resolve 0 ?st =
              Inr (?lit, ?st\<lparr>binds := (binds ?st)(0 := (binds ?st 0)\<lparr>resolved := Some ?lit\<rparr>)\<rparr>)"
    by (simp add: Binding_resolve_def mismatch_binds source_resolve_def endpoint_type_def)
  from binding_type_mismatch[OF h4] h5
  have r2: "endpoint_type ?st ?lit = b_type (binds ?st 0)" by blast
  from r1 r2 h1 h2 h4 h5 show ?thesis
    by (simp add: mismatch_binds mismatch_misc endpoint_type_def)
qed

lemma Binding_resolve_memo:
  "resolved (binds st b) = Some e \<Longrightarrow> Binding_resolve b st = Inr (e, st)"
  by (simp add: Binding_resolve_def)

lemma Binding_resolve_sets_memo:
  "Binding_resolve b st = Inr (e, st1) \<Longrightarrow> resolved (binds st1 b) = Some e"
  by (auto simp: Binding_resolve_def split: option.splits sum.splits target.splits if_splits)

lemma Binding_resolve_other:
  "Binding_resolve b st = Inr (e, st1) \<Longrightarrow> b2 \<noteq> b \<Longrightarrow> binds st1 b2 = binds st b2"
  by (auto simp: Binding_resolve_def split: option.splits sum.splits target.splits if_splits)

lemma Binding_resolve_fresh:
  "resolved (binds st b) = None \<Longrightarrow> b_to (binds st b) = SrcRef r \<Longrightarrow>
   Binding_resolve b st =
     (case resolve_path (r_path r) st of
        Inl err \<Rightarrow> Inl err
      | Inr TNull \<Rightarrow> Inl (JsTypeError ''cannot read property type of null'')
      | Inr (TInst i) \<Rightarrow> Inl (type_mismatch st b ''undefined'')
      | Inr (TEnd e2) \<Rightarrow>
          if endpoint_type st e2 \<noteq> b_type (binds st b)
          then Inl (type_mismatch st b (endpoint_type st e2))
          else Inr (e2, st\<lparr>binds := (binds st)(b := (binds st b)\<lparr>resolved := Some e2\<rparr>)\<rparr>))"
  by (simp add: Binding_resolve_def source_resolve_def Reference_resolve_def)

text \<open>
  Claim C6. A successful call of \<open>Binding_resolve\<close> stores the end-point in the binding;
  every later call returns that end-point and leaves the state as it is, in any state that
  still holds the memo, whatever happened to the instance table. Resolving one binding
  changes no other binding. A reference keeps no result: \<open>Reference_resolve\<close> is
  \<open>resolve_path\<close> on the current template context, and a binding that is not resolved
  yet and whose source is a reference computes its result from \<open>resolve_path\<close> in the
  state in which it is called.
\<close>

theorem binding_memoized:
  assumes "Binding_resolve b st = Inr (e, st1)"
  shows "resolved (binds st1 b) = Some e
       \<and> Binding_resolve b st1 = Inr (e, st1)
       \<and> (resolved (binds st2 b) = Some e \<longrightarrow> Binding_resolve b st2 = Inr (e, st2))
       \<and> (b2 \<noteq> b \<longrightarrow> binds st1 b2 = binds st b2)
       \<and> Reference_resolve r st3 = resolve_path (r_path r) st3
       \<and> (resolved (binds st3 b2) = None \<longrightarrow> b_to (binds st3 b2) = SrcRef r \<longrightarrow>
            Binding_resolve b2 st3 =
              (case resolve_path (r_path r) st3 of
                 Inl err \<Rightarrow> Inl err
               | Inr TNull \<Rightarrow> Inl (JsTypeError ''cannot read property type of null'')
               | Inr (TInst i) \<Rightarrow> Inl (type_mismatch st3 b2 ''undefined'')
               | Inr (TEnd e2) \<Rightarrow>
                   if endpoint_type st3 e2 \<noteq> b_type (binds st3 b2)
                   then Inl (type_mismatch st3 b2 (endpoint_type st3 e2))
                   else Inr (e2, st3\<lparr>binds := (binds st3)(b2 := (binds st3 b2)\<lparr>resolved := Some e2\<rparr>)\<rparr>)))"
proof -
  have m: "resolved (binds st1 b) = Some e" by (rule Binding_resolve_sets_memo[OF assms])
  have a: "Binding_resolve b st1 = Inr (e, st1)" by (rule Binding_resolve_memo[OF m])
  have c: "resolved (binds st2 b) = Some e \<longrightarrow> Binding_resolve b st2 = Inr (e, st2)"
    by (simp add: Binding_resolve_memo)
  have d: "b2 \<noteq> b \<longrightarrow> binds st1 b2 = binds st b2"
    using Binding_resolve_other[OF assms] by simp
  have f: "Reference_resolve r st3 = resolve_path (r_path r) st3"
    by (simp add: Reference_resolve_def)
  have g: "resolved (binds st3 b2) = None \<longrightarrow> b_to (binds st3 b2) = SrcRef r \<longrightarrow>
            Binding_resolve b2 st3 =
              (case resolve_path (r_path r) st3 of
                 Inl err \<Rightarrow> Inl err
               | Inr TNull \<Rightarrow> Inl (JsTypeError ''cannot read property type of null'')
               | Inr (TInst i) \<Rightarrow> Inl (type_mismatch st3 b2 ''undefined'')
               | Inr (TEnd e2) \<Rightarrow>
                   if endpoint_type st3 e2 \<noteq> b_type (binds st3 b2)
                   then Inl (type_mismatch st3 b2 (endpoint_type st3 e2))
                   else Inr (e2, st3\<lparr>binds := (binds st3)(b2 := (binds st3 b2)\<lparr>resolved := Some e2\<rparr>)\<rparr>))"
    using Binding_resolve_fresh[of st3 b2 r] by blast
  from m a c d f g show ?thesis by (intro conjI)
qed

lemma shared_binds:
  "binds (built shared_graph) (Suc 0) =
     \<lparr>b_to = SrcRef \<lparr>r_name = ''rd.out'', r_path = [''rd'', ''out'']\<rparr>, b_type = ''text'',
      b_field = ''in'', b_inst = Suc 0, resolved = None\<rparr>"
  "binds (built shared_graph) (Suc (Suc 0)) =
     \<lparr>b_to = SrcRef \<lparr>r_name = ''rd.out'', r_path = [''rd'', ''out'']\<rparr>, b_type = ''text'',
      b_field = ''in'', b_inst = Suc (Suc 0), resolved = None\<rparr>"
  by (simp_all add: shared_graph_def eval_defs)

lemma shared_resolve:
  "resolve_path [''rd'', ''out''] (built shared_graph) = Inr (TEnd (Slot 0))"
  "s_type (slots (built shared_graph) 0) = ''text''"
  by (simp_all add: shared_graph_def eval_defs resolve_path_def)

theorem binding_memoized_witness:
  "\<exists>st1. Binding_resolve (Suc 0) (built shared_graph) = Inr (Slot 0, st1)
     \<and> resolved (binds st1 (Suc 0)) = Some (Slot 0)
     \<and> Binding_resolve (Suc 0) st1 = Inr (Slot 0, st1)
     \<and> Binding_resolve (Suc 0) (st1\<lparr>bound := \<lambda>_. None\<rparr>) = Inr (Slot 0, st1\<lparr>bound := \<lambda>_. None\<rparr>)
     \<and> binds st1 (Suc (Suc 0)) = binds (built shared_graph) (Suc (Suc 0))
     \<and> b_to (binds st1 (Suc (Suc 0))) = b_to (binds st1 (Suc 0))
     \<and> Binding_resolve (Suc (Suc 0)) (st1\<lparr>bound := \<lambda>_. None\<rparr>) =
         Inl (JsTypeError ''cannot read property type of null'')"
proof -
  let ?st = "built shared_graph"
  let ?r = "\<lparr>r_name = ''rd.out'', r_path = [''rd'', ''out'']\<rparr>"
  define st1 where "st1 = ?st\<lparr>binds := (binds ?st)(Suc 0 := (binds ?st (Suc 0))\<lparr>resolved := Some (Slot 0)\<rparr>)\<rparr>"
  have h: "Binding_resolve (Suc 0) ?st = Inr (Slot 0, st1)"
    by (simp add: Binding_resolve_fresh[of ?st "Suc 0" ?r] shared_binds shared_resolve
          endpoint_type_def st1_def)
  note t = binding_memoized[OF h, of "st1\<lparr>bound := \<lambda>_. None\<rparr>" "Suc (Suc 0)" ?r
            "st1\<lparr>bound := \<lambda>_. None\<rparr>"]
  have m: "resolved (binds st1 (Suc 0)) = Some (Slot 0)" using t by blast
  have a: "Binding_resolve (Suc 0) st1 = Inr (Slot 0, st1)" using t by blast
  have c: "Binding_resolve (Suc 0) (st1\<lparr>bound := \<lambda>_. None\<rparr>) = Inr (Slot 0, st1\<lparr>bound := \<lambda>_. None\<rparr>)"
    using t m by simp
  have d: "binds st1 (Suc (Suc 0)) = binds ?st (Suc (Suc 0))" using t by simp
  have e: "b_to (binds st1 (Suc (Suc 0))) = b_to (binds st1 (Suc 0))"
    by (simp add: st1_def shared_binds)
  have p: "resolve_path (r_path ?r) (st1\<lparr>bound := \<lambda>_. None\<rparr>) = Inr TNull"
    by (simp add: resolve_path_def)
  have g: "Binding_resolve (Suc (Suc 0)) (st1\<lparr>bound := \<lambda>_. None\<rparr>) =
         Inl (JsTypeError ''cannot read property type of null'')"
    using t d p by (simp add: shared_binds)
  from h m a c d e g show ?thesis by blast
qed

lemma generate_bind:
  "generate comps n ast =
     bind_r (bind_r (expand comps ast (TemplateContext_new ''main'')) resolve_acts)
       (\<lambda>st2. bind_r (emit_code n st2) (\<lambda>st3. Inr (lines st3)))"
  by (simp add: generate_def bind_r_def split: sum.splits)

lemma dangling_resolve_acts:
  "bind_r (expand components dangling_graph (TemplateContext_new ''main'')) resolve_acts =
     Inl (JsTypeError ''cannot read property type of null'')"
proof -
  have "(case bind_r (expand components dangling_graph (TemplateContext_new ''main'')) resolve_acts
         of Inl err \<Rightarrow> Some err | Inr _ \<Rightarrow> None) =
        Some (JsTypeError ''cannot read property type of null'')"
    by code_simp
  then show ?thesis
    by (cases "bind_r (expand components dangling_graph (TemplateContext_new ''main'')) resolve_acts")
       simp_all
qed

text \<open>
  Claim C3, evaluated on the code: a reference whose first segment names no instance
  resolves to \<^verbatim>\<open>null\<close> with no diagnostic, and compiling a graph with such an argument
  stops in \<open>Binding_resolve\<close> on the read of \<^verbatim>\<open>ref.type\<close>, an exception of the JavaScript
  runtime and not the unknown-instance diagnostic of the claim. No line is produced.
\<close>

theorem dangling_reference_type_error:
  "Reference_resolve (Reference_new ''nosuch.out'') (TemplateContext_new ''main'') = Inr TNull
   \<and> generate components n dangling_graph = Inl (JsTypeError ''cannot read property type of null'')"
proof -
  have "Reference_resolve (Reference_new ''nosuch.out'') (TemplateContext_new ''main'') = Inr TNull"
    by code_simp
  moreover have "generate components n dangling_graph = Inl (JsTypeError ''cannot read property type of null'')"
    by (simp add: generate_bind dangling_resolve_acts)
  ultimately show ?thesis by simp
qed

section \<open>Properties of the emission protocol\<close>

lemma foldl_bind_r_Inl:
  "foldl (\<lambda>r x. bind_r r (f x)) (Inl err) xs = Inl err"
  by (induction xs) simp_all

lemma emit_each_foldl:
  "emit_each call pfx as st =
     foldl (\<lambda>r act. bind_r r (call (emit act) \<lparr>e_inst = a_inst act, prefix = pfx, captureMap = None\<rparr>))
       (Inr st) as"
proof (induction as arbitrary: st)
  case Nil
  show ?case by simp
next
  case (Cons act as)
  show ?case
  proof (cases "call (emit act) \<lparr>e_inst = a_inst act, prefix = pfx, captureMap = None\<rparr> st")
    case (Inl err)
    then show ?thesis by (simp add: foldl_bind_r_Inl)
  next
    case (Inr st1)
    then show ?thesis by (simp add: Cons.IH)
  qed
qed



lemma emit_triggered_slot:
  "emit_triggered call es (OSlot s) indent st =
     emit_each call (prefix es @ indent) (queued (slots st s)) st"
  by (simp add: emit_triggered_def is_of_def mode_of_def)




text \<open>
  Claim C9. \<open>emit_triggered\<close> called from a context that carries a capture map behaves as
  from the same context without one: every queued callback runs in a new context whose
  capture map is absent. In such a context \<open>EmitContext_string\<close> renders a slot by its own
  symbol, while in the context of the join body, which holds the map, it renders the
  capture symbol that the map gives for the slot's symbol.
\<close>

theorem emit_triggered_drops_capture_map:
  "emit_triggered call (es\<lparr>captureMap := Some cm\<rparr>) ob indent st =
     emit_triggered call (es\<lparr>captureMap := None\<rparr>) ob indent st
   \<and> emit_triggered call (es\<lparr>captureMap := Some cm\<rparr>) (OSlot s) indent st =
       emit_each call (prefix es @ indent) (queued (slots st s)) st
   \<and> emit_each call pfx (act # rest) st =
       bind_r (call (emit act) \<lparr>e_inst = a_inst act, prefix = pfx, captureMap = None\<rparr> st)
         (emit_each call pfx rest)
   \<and> (dep_resolve d st = Inr (Slot t, st1) \<longrightarrow>
        EmitContext_string \<lparr>e_inst = i, prefix = pfx, captureMap = None\<rparr> d st =
          Inr (slot (slots st1 t), st1))
   \<and> (dep_resolve d st = Inr (Slot t, st1) \<longrightarrow> map_of cm (slot (slots st1 t)) = Some cap \<longrightarrow>
        cap \<noteq> [] \<longrightarrow>
        EmitContext_string (es\<lparr>captureMap := Some cm\<rparr>) d st = Inr (cap, st1))"
proof -
  have a: "emit_triggered call (es\<lparr>captureMap := Some cm\<rparr>) ob indent st =
           emit_triggered call (es\<lparr>captureMap := None\<rparr>) ob indent st"
    by (cases ob) (simp_all add: emit_triggered_def is_of_def mode_of_def)
  have b: "emit_triggered call (es\<lparr>captureMap := Some cm\<rparr>) (OSlot s) indent st =
           emit_each call (prefix es @ indent) (queued (slots st s)) st"
    by (simp add: emit_triggered_slot)
  have c: "emit_each call pfx (act # rest) st =
       bind_r (call (emit act) \<lparr>e_inst = a_inst act, prefix = pfx, captureMap = None\<rparr> st)
         (emit_each call pfx rest)"
    by (simp add: bind_r_def split: sum.splits)
  have d: "dep_resolve d st = Inr (Slot t, st1) \<longrightarrow>
        EmitContext_string \<lparr>e_inst = i, prefix = pfx, captureMap = None\<rparr> d st =
          Inr (slot (slots st1 t), st1)"
    by (simp add: EmitContext_string_def)
  have e: "dep_resolve d st = Inr (Slot t, st1) \<longrightarrow> map_of cm (slot (slots st1 t)) = Some cap \<longrightarrow>
        cap \<noteq> [] \<longrightarrow>
        EmitContext_string (es\<lparr>captureMap := Some cm\<rparr>) d st = Inr (cap, st1)"
    by (simp add: EmitContext_string_def)
  from a b c d e show ?thesis by (intro conjI)
qed

theorem emit_triggered_drops_capture_map_witness:
  "dep_resolve (DSlot 0) (snd (ValueSlot_new ''out'' ''text'' ''out_1'' 0 (TemplateContext_new ''main'')))
     = Inr (Slot 0, snd (ValueSlot_new ''out'' ''text'' ''out_1'' 0 (TemplateContext_new ''main'')))
   \<and> map_of [(''out_1'', ''out_1_1'')]
        (slot (slots (snd (ValueSlot_new ''out'' ''text'' ''out_1'' 0 (TemplateContext_new ''main''))) 0))
       = Some ''out_1_1''
   \<and> map_sum id fst (EmitContext_string \<lparr>e_inst = 0, prefix = ''  '', captureMap = None\<rparr> (DSlot 0)
        (snd (ValueSlot_new ''out'' ''text'' ''out_1'' 0 (TemplateContext_new ''main''))))
       = Inr ''out_1''
   \<and> map_sum id fst (EmitContext_string
        \<lparr>e_inst = 0, prefix = ''  '', captureMap = Some [(''out_1'', ''out_1_1'')]\<rparr> (DSlot 0)
        (snd (ValueSlot_new ''out'' ''text'' ''out_1'' 0 (TemplateContext_new ''main''))))
       = Inr ''out_1_1''"
proof -
  let ?st = "snd (ValueSlot_new ''out'' ''text'' ''out_1'' 0 (TemplateContext_new ''main''))"
  let ?es = "\<lparr>e_inst = 0, prefix = ''  '', captureMap = None\<rparr>"
  have h1: "dep_resolve (DSlot 0) ?st = Inr (Slot 0, ?st)" by (simp add: dep_resolve_def)
  have sy: "slot (slots ?st 0) = ''out_1''"
    by (simp add: ValueSlot_new_def TemplateContext_new_def)
  have h2: "map_of [(''out_1'', ''out_1_1'')] (slot (slots ?st 0)) = Some ''out_1_1''"
    by (simp add: sy)
  have h3: "''out_1_1'' \<noteq> []" by simp
  note t = emit_triggered_drops_capture_map[where es = ?es and cm = "[(''out_1'', ''out_1_1'')]"
      and d = "DSlot 0" and st = ?st and t = 0 and ?st1.0 = ?st and cap = "''out_1_1''"
      and i = 0 and pfx = "''  ''"]
  have r1: "EmitContext_string ?es (DSlot 0) ?st = Inr (slot (slots ?st 0), ?st)"
    using t h1 by blast
  have r2: "EmitContext_string (?es\<lparr>captureMap := Some [(''out_1'', ''out_1_1'')]\<rparr>) (DSlot 0) ?st =
          Inr (''out_1_1'', ?st)"
    using t h1 h2 h3 by blast
  from h1 h2 r1 r2 show ?thesis by (simp add: sy)
qed

section \<open>Scheduling: auxiliary facts\<close>

lemma uid_calls_flat:
  "uid_calls nms st = (uid_syms (uidMap st) nms, st\<lparr>uidMap := uid_map (uidMap st) nms\<rparr>)"
proof (induction nms arbitrary: st)
  case Nil
  show ?case by simp
next
  case (Cons nm nms)
  show ?case by (simp add: uid_def Cons.IH)
qed

lemma queue_decr_flat:
  "queue_decr c a inst ps st = st\<lparr>slots := decr_slots c a inst ps (slots st)\<rparr>"
proof (induction c a inst ps st rule: queue_decr.induct)
  case (1 c a inst st)
  show ?case by simp
next
  case (2 c a inst need cap rest st)
  show ?case unfolding queue_decr.simps "2.IH" by (simp add: queue_on_def)
qed

lemma fill_captures_slots:
  "slots st = slots st' \<Longrightarrow> fill_captures st ps cm = fill_captures st' ps cm"
  by (induction st ps cm rule: fill_captures.induct) simp_all

lemma synth_join_flat:
  "synth_join act nds st =
     st\<lparr>uidMap := uid_map (uidMap st) (''counter'' # ''actor'' # map (\<lambda>s. slot (slots st s)) nds),
        lines := lines st @
          [join_decl (''counter_'' @ dec (uidMap st ''counter'' + 1)) (length nds)
             (uid_syms (uid_map (uidMap st) [''counter'', ''actor''])
                (map (\<lambda>s. slot (slots st s)) nds))],
        roots := roots st @
          [actorAct (''actor_'' @ dec (uidMap st ''actor'' + 1)) act
             (fill_captures st
                (zip nds (uid_syms (uid_map (uidMap st) [''counter'', ''actor''])
                            (map (\<lambda>s. slot (slots st s)) nds))) [])],
        slots := decr_slots (''counter_'' @ dec (uidMap st ''counter'' + 1))
                   (''actor_'' @ dec (uidMap st ''actor'' + 1)) (a_inst act)
                   (zip nds (uid_syms (uid_map (uidMap st) [''counter'', ''actor''])
                               (map (\<lambda>s. slot (slots st s)) nds)))
                   (slots st)\<rparr>"
proof -
  have fc: "\<And>m ps l. fill_captures (st\<lparr>uidMap := m\<rparr>) ps l = fill_captures st ps l"
    by (rule fill_captures_slots) simp
  show ?thesis
    by (simp add: synth_join_def uid_def uid_calls_flat queue_decr_flat Let_def fc)
qed

lemmas resolve_defs = resolve_acts_def resolve_act_def dep_resolve_def Binding_resolve_def
  source_resolve_def Reference_resolve_def resolve_path_def endpoint_type_def type_mismatch_def
  synth_join_flat queue_on_def decrAct_def actorAct_def join_decl_def


lemma memo_le_refl: "memo_le st st"
  by (simp add: memo_le_def)

lemma memo_le_trans: "memo_le a b \<Longrightarrow> memo_le b c \<Longrightarrow> memo_le a c"
  by (simp add: memo_le_def)

lemma memo_le_binds: "binds st' = binds st \<Longrightarrow> memo_le st st'"
  by (simp add: memo_le_def)

lemma Binding_resolve_frame:
  assumes "Binding_resolve b st = Inr (e, st1)"
  shows "st1 = st\<lparr>binds := binds st1\<rparr>" and "memo_le st st1" and "resolved (binds st1 b) = Some e"
  using assms
  by (auto simp: Binding_resolve_def memo_le_def split: option.splits sum.splits target.splits if_splits)

lemma dep_resolve_frame:
  assumes "dep_resolve d st = Inr (e, st1)"
  shows "st1 = st\<lparr>binds := binds st1\<rparr>" and "memo_le st st1" and "dep_endpoint st1 d = Some e"
proof -
  show "st1 = st\<lparr>binds := binds st1\<rparr>"
    using assms Binding_resolve_frame(1) by (cases d) (auto simp: dep_resolve_def)
  show "memo_le st st1"
    using assms Binding_resolve_frame(2) by (cases d) (auto simp: dep_resolve_def memo_le_refl)
  show "dep_endpoint st1 d = Some e"
    using assms Binding_resolve_frame(3) by (cases d) (auto simp: dep_resolve_def dep_endpoint_def)
qed

lemma dep_endpoint_mono:
  "memo_le st st' \<Longrightarrow> dep_endpoint st d = Some e \<Longrightarrow> dep_endpoint st' d = Some e"
  by (cases d) (auto simp: dep_endpoint_def memo_le_def)

lemma spec_needs_mono:
  "memo_le st st' \<Longrightarrow> \<forall>d\<in>set ds. dep_endpoint st d \<noteq> None \<Longrightarrow>
   spec_needs st' ds = spec_needs st ds"
proof (induction ds)
  case Nil
  show ?case by simp
next
  case (Cons d ds)
  from Cons.prems(2) obtain e where e: "dep_endpoint st d = Some e" by auto
  from dep_endpoint_mono[OF Cons.prems(1) e] have e': "dep_endpoint st' d = Some e" .
  from Cons show ?case by (cases e) (simp_all add: e e')
qed

lemma collect_needs_frame:
  assumes "collect_needs ds st = Inr (nds, st1)"
  shows "st1 = st\<lparr>binds := binds st1\<rparr> \<and> memo_le st st1
         \<and> (\<forall>d\<in>set ds. dep_endpoint st1 d \<noteq> None) \<and> nds = spec_needs st1 ds"
  using assms
proof (induction ds arbitrary: st nds)
  case Nil
  then show ?case by (simp add: memo_le_refl)
next
  case (Cons d ds)
  from Cons.prems obtain e sa nds' where
    r: "dep_resolve d st = Inr (e, sa)" and
    c: "collect_needs ds sa = Inr (nds', st1)" and
    n: "nds = (case e of Lit _ \<Rightarrow> [] | Slot s \<Rightarrow> [s]) @ nds'"
    by (auto split: sum.splits)
  note f = dep_resolve_frame[OF r]
  from Cons.IH[OF c] have
    i1: "st1 = sa\<lparr>binds := binds st1\<rparr>" and i2: "memo_le sa st1" and
    i3: "\<forall>d\<in>set ds. dep_endpoint st1 d \<noteq> None" and i4: "nds' = spec_needs st1 ds"
    by simp_all
  have e1: "dep_endpoint st1 d = Some e" by (rule dep_endpoint_mono[OF i2 f(3)])
  have a: "st1 = st\<lparr>binds := binds st1\<rparr>"
    by (subst i1, subst f(1)) simp
  have b: "memo_le st st1" by (rule memo_le_trans[OF f(2) i2])
  have c': "\<forall>x\<in>set (d # ds). dep_endpoint st1 x \<noteq> None" using e1 i3 by simp
  have d': "nds = spec_needs st1 (d # ds)"
    using n i4 e1 by (cases e) simp_all
  from a b c' d' show ?case by blast
qed

lemma decr_slots_props:
  "slot (decr_slots c a inst ps sl s) = slot (sl s)
   \<and> queued (decr_slots c a inst ps sl s) =
       queued (sl s) @
       map (\<lambda>(need, cap). decrAct c a inst need (slot (sl need)) cap)
         (filter (\<lambda>(need, cap). need = s) ps)"
proof (induction c a inst ps sl rule: decr_slots.induct)
  case (1 c a inst sl)
  show ?case by simp
next
  case (2 c a inst need cap rest sl)
  let ?sl = "sl(need := (sl need)\<lparr>queued := queued (sl need) @
                                 [decrAct c a inst need (slot (sl need)) cap]\<rparr>)"
  have sy: "\<And>x. slot (?sl x) = slot (sl x)" by simp
  have lam: "(\<lambda>(n, y). decrAct c a inst n (slot (?sl n)) y) =
             (\<lambda>(n, y). decrAct c a inst n (slot (sl n)) y)"
    by (simp only: sy)
  have i1: "slot (decr_slots c a inst rest ?sl s) = slot (?sl s)"
    by (rule "2.IH"[THEN conjunct1])
  have i2: "queued (decr_slots c a inst rest ?sl s) =
         queued (?sl s) @ map (\<lambda>(n, y). decrAct c a inst n (slot (?sl n)) y)
                            (filter (\<lambda>(n, y). n = s) rest)"
    by (rule "2.IH"[THEN conjunct2])
  have a: "slot (decr_slots c a inst ((need, cap) # rest) sl s) = slot (sl s)"
    using i1 by (simp only: decr_slots.simps sy)
  have b: "queued (decr_slots c a inst ((need, cap) # rest) sl s) =
       queued (sl s) @
       map (\<lambda>(n, y). decrAct c a inst n (slot (sl n)) y)
         (filter (\<lambda>(n, y). n = s) ((need, cap) # rest))"
  proof (cases "need = s")
    case True
    have "queued (?sl s) = queued (sl s) @ [decrAct c a inst s (slot (sl s)) cap]"
      using True by simp
    then show ?thesis using True i2 unfolding lam by simp
  next
    case False
    have "queued (?sl s) = queued (sl s)" using False by simp
    then show ?thesis using False i2 unfolding lam by simp
  qed
  from a b show ?case by simp
qed

lemma uid_syms_length [simp]: "length (uid_syms m nms) = length nms"
  by (induction nms arbitrary: m) simp_all

lemma uid_map_mono: "m x \<le> uid_map m nms x"
proof (induction nms arbitrary: m)
  case Nil
  show ?case by simp
next
  case (Cons nm nms)
  have "m x \<le> (m(nm := m nm + 1)) x" by simp
  also have "\<dots> \<le> uid_map (m(nm := m nm + 1)) nms x" by (rule Cons.IH)
  finally show ?case by simp
qed



lemma uid_syms_append:
  "uid_syms m (xs @ ys) = uid_syms m xs @ uid_syms (uid_map m xs) ys"
  by (induction xs arbitrary: m) simp_all



lemma resolve_act_unfold:
  assumes "resolve_act i act st = Inr st'"
  obtains nds sc where
    "collect_needs (wait act) st = Inr (nds, sc)"
    "st' = (if length nds = 0
            then sc\<lparr>acts := (acts sc)[i := act\<lparr>needs := Some nds\<rparr>],
                    roots := roots sc @ [act\<lparr>needs := Some nds\<rparr>]\<rparr>
            else if length nds = 1
            then queue_on (nds ! 0) (act\<lparr>needs := Some nds\<rparr>)
                   (sc\<lparr>acts := (acts sc)[i := act\<lparr>needs := Some nds\<rparr>]\<rparr>)
            else synth_join (act\<lparr>needs := Some nds\<rparr>) nds
                   (sc\<lparr>acts := (acts sc)[i := act\<lparr>needs := Some nds\<rparr>]\<rparr>))"
proof (cases "collect_needs (wait act) st")
  case (Inl err)
  with assms show ?thesis by (simp add: resolve_act_def)
next
  case (Inr p)
  obtain nds sc where p: "p = (nds, sc)" by (cases p)
  from assms Inr p have
    "st' = (if length nds = 0
            then sc\<lparr>acts := (acts sc)[i := act\<lparr>needs := Some nds\<rparr>],
                    roots := roots sc @ [act\<lparr>needs := Some nds\<rparr>]\<rparr>
            else if length nds = 1
            then queue_on (nds ! 0) (act\<lparr>needs := Some nds\<rparr>)
                   (sc\<lparr>acts := (acts sc)[i := act\<lparr>needs := Some nds\<rparr>]\<rparr>)
            else synth_join (act\<lparr>needs := Some nds\<rparr>) nds
                   (sc\<lparr>acts := (acts sc)[i := act\<lparr>needs := Some nds\<rparr>]\<rparr>))"
    by (simp add: resolve_act_def Let_def split: if_splits)
  with Inr p that show ?thesis by blast
qed

lemma decrAct_not_registered:
  "filter registered (map (\<lambda>(n, y). decrAct c a inst n (f n) y) ps) = []"
  by (induction ps) (auto simp: registered_def decrAct_def)

lemma resolve_act_step:
  assumes "resolve_act i act st = Inr st'"
  shows "\<exists>nds rs ds.
      acts st' = (acts st)[i := act\<lparr>needs := Some nds\<rparr>]
    \<and> nds = spec_needs st' (wait act)
    \<and> (\<forall>d\<in>set (wait act). dep_endpoint st' d \<noteq> None)
    \<and> memo_le st st'
    \<and> tpl_imports st' = tpl_imports st
    \<and> (\<forall>s. slot (slots st' s) = slot (slots st s))
    \<and> roots st' = roots st @ rs
    \<and> list_all2 root_of rs (filter (\<lambda>a. n_needs a \<noteq> 1) [act\<lparr>needs := Some nds\<rparr>])
    \<and> filter registered rs = filter (\<lambda>a. needs a = Some []) [act\<lparr>needs := Some nds\<rparr>]
    \<and> lines st' = lines st @ ds
    \<and> list_all2 decl_of ds (filter (\<lambda>a. 2 \<le> n_needs a) [act\<lparr>needs := Some nds\<rparr>])
    \<and> (\<forall>s. \<exists>qs. queued (slots st' s) = queued (slots st s) @ qs
              \<and> filter registered qs = filter (\<lambda>a. needs a = Some [s]) [act\<lparr>needs := Some nds\<rparr>])"
proof -
  from assms obtain nds sc where
    cn: "collect_needs (wait act) st = Inr (nds, sc)" and
    st': "st' = (if length nds = 0
            then sc\<lparr>acts := (acts sc)[i := act\<lparr>needs := Some nds\<rparr>],
                    roots := roots sc @ [act\<lparr>needs := Some nds\<rparr>]\<rparr>
            else if length nds = 1
            then queue_on (nds ! 0) (act\<lparr>needs := Some nds\<rparr>)
                   (sc\<lparr>acts := (acts sc)[i := act\<lparr>needs := Some nds\<rparr>]\<rparr>)
            else synth_join (act\<lparr>needs := Some nds\<rparr>) nds
                   (sc\<lparr>acts := (acts sc)[i := act\<lparr>needs := Some nds\<rparr>]\<rparr>))"
    by (rule resolve_act_unfold)
  let ?a = "act\<lparr>needs := Some nds\<rparr>"
  from collect_needs_frame[OF cn] have
    fr: "sc = st\<lparr>binds := binds sc\<rparr>" and ml: "memo_le st sc" and
    ar: "\<forall>d\<in>set (wait act). dep_endpoint sc d \<noteq> None" and sn: "nds = spec_needs sc (wait act)"
    by simp_all
  have sc_acts: "acts sc = acts st" and sc_roots: "roots sc = roots st"
    and sc_lines: "lines sc = lines st" and sc_slots: "slots sc = slots st"
    and sc_imp: "tpl_imports sc = tpl_imports st"
    by (subst fr, simp)+
  have bs: "binds st' = binds sc"
    unfolding st' by (simp add: queue_on_def synth_join_flat)
  have de: "\<And>d. dep_endpoint st' d = dep_endpoint sc d"
  proof -
    fix d show "dep_endpoint st' d = dep_endpoint sc d"
      by (cases d) (simp_all add: dep_endpoint_def bs)
  qed
  have sne: "\<And>ds. spec_needs st' ds = spec_needs sc ds"
  proof -
    fix ds show "spec_needs st' ds = spec_needs sc ds"
      by (induction ds) (simp_all add: de split: option.splits endpoint.splits)
  qed
  have c1: "acts st' = (acts st)[i := ?a]"
    unfolding st' by (simp add: queue_on_def synth_join_flat sc_acts)
  have c2: "nds = spec_needs st' (wait act)" by (simp add: sne sn[symmetric])
  have c3: "\<forall>d\<in>set (wait act). dep_endpoint st' d \<noteq> None" using ar by (simp add: de)
  have c4: "memo_le st st'"
    by (rule memo_le_trans[OF ml]) (simp add: memo_le_binds bs)
  have c5: "tpl_imports st' = tpl_imports st"
    unfolding st' by (simp add: queue_on_def synth_join_flat sc_imp)
  have c6: "\<forall>s. slot (slots st' s) = slot (slots st s)"
    unfolding st' by (simp add: queue_on_def synth_join_flat sc_slots decr_slots_props)
  have nn: "n_needs ?a = length nds" by (simp add: n_needs_def)
  consider (root) "length nds = 0" | (single) "length nds = 1" | (join) "2 \<le> length nds"
    by linarith
  then have rest: "\<exists>rs ds. roots st' = roots st @ rs
    \<and> list_all2 root_of rs (filter (\<lambda>a. n_needs a \<noteq> 1) [?a])
    \<and> filter registered rs = filter (\<lambda>a. needs a = Some []) [?a]
    \<and> lines st' = lines st @ ds
    \<and> list_all2 decl_of ds (filter (\<lambda>a. 2 \<le> n_needs a) [?a])
    \<and> (\<forall>s. \<exists>qs. queued (slots st' s) = queued (slots st s) @ qs
              \<and> filter registered qs = filter (\<lambda>a. needs a = Some [s]) [?a])"
  proof cases
    case root
    then have e: "st' = sc\<lparr>acts := (acts sc)[i := ?a], roots := roots sc @ [?a]\<rparr>"
      unfolding st' by simp
    have r1: "roots st' = roots st @ [?a]" by (simp add: e sc_roots)
    have r2: "list_all2 root_of [?a] (filter (\<lambda>a. n_needs a \<noteq> 1) [?a])"
      using root by (simp add: n_needs_def root_of_def)
    have r3: "filter registered [?a] = filter (\<lambda>a. needs a = Some []) [?a]"
      using root by (simp add: registered_def)
    have r4: "lines st' = lines st @ []" by (simp add: e sc_lines)
    have r5: "list_all2 decl_of [] (filter (\<lambda>a. 2 \<le> n_needs a) [?a])"
      using root by (simp add: n_needs_def)
    have r6: "\<forall>s. \<exists>qs. queued (slots st' s) = queued (slots st s) @ qs
              \<and> filter registered qs = filter (\<lambda>a. needs a = Some [s]) [?a]"
      using root by (simp add: e sc_slots)
    from r1 r2 r3 r4 r5 r6 show ?thesis by blast
  next
    case single
    then obtain s0 where s0: "nds = [s0]" by (cases nds) auto
    have e: "st' = queue_on s0 ?a (sc\<lparr>acts := (acts sc)[i := ?a]\<rparr>)"
      unfolding st' using s0 by simp
    have r1: "roots st' = roots st @ []" by (simp add: e queue_on_def sc_roots)
    have r2: "list_all2 root_of [] (filter (\<lambda>a. n_needs a \<noteq> 1) [?a])"
      using single by (simp add: n_needs_def)
    have r3: "filter registered [] = filter (\<lambda>a. needs a = Some []) [?a]"
      using s0 by simp
    have r4: "lines st' = lines st @ []" by (simp add: e queue_on_def sc_lines)
    have r5: "list_all2 decl_of [] (filter (\<lambda>a. 2 \<le> n_needs a) [?a])"
      using single by (simp add: n_needs_def)
    have r6: "\<forall>s. \<exists>qs. queued (slots st' s) = queued (slots st s) @ qs
              \<and> filter registered qs = filter (\<lambda>a. needs a = Some [s]) [?a]"
    proof
      fix s
      show "\<exists>qs. queued (slots st' s) = queued (slots st s) @ qs
              \<and> filter registered qs = filter (\<lambda>a. needs a = Some [s]) [?a]"
      proof (cases "s = s0")
        case True
        have "queued (slots st' s) = queued (slots st s) @ [?a]"
          using True by (simp add: e queue_on_def sc_slots)
        moreover have "filter registered [?a] = filter (\<lambda>a. needs a = Some [s]) [?a]"
          using True s0 by (simp add: registered_def)
        ultimately show ?thesis by blast
      next
        case False
        have "queued (slots st' s) = queued (slots st s) @ []"
          using False by (simp add: e queue_on_def sc_slots)
        moreover have "filter registered [] = filter (\<lambda>a. needs a = Some [s]) [?a]"
          using False s0 by simp
        ultimately show ?thesis by blast
      qed
    qed
    from r1 r2 r3 r4 r5 r6 show ?thesis by blast
  next
    case join
    let ?s0 = "sc\<lparr>acts := (acts sc)[i := ?a]\<rparr>"
    from join have ne: "(length nds = 0) = False" "(length nds = 1) = False" by auto
    have e: "st' = synth_join ?a nds ?s0"
      unfolding st' by (simp only: ne if_False)
    let ?c = "''counter_'' @ dec (uidMap ?s0 ''counter'' + 1)"
    let ?v = "''actor_'' @ dec (uidMap ?s0 ''actor'' + 1)"
    let ?caps = "uid_syms (uid_map (uidMap ?s0) [''counter'', ''actor''])
                   (map (\<lambda>s. slot (slots ?s0 s)) nds)"
    let ?cm = "fill_captures ?s0 (zip nds ?caps) []"
    have r1: "roots st' = roots st @ [actorAct ?v ?a ?cm]"
      unfolding e synth_join_flat by (simp add: sc_roots)
    have r2: "list_all2 root_of [actorAct ?v ?a ?cm] (filter (\<lambda>a. n_needs a \<noteq> 1) [?a])"
      using join by (auto simp: n_needs_def root_of_def)
    have r3: "filter registered [actorAct ?v ?a ?cm] = filter (\<lambda>a. needs a = Some []) [?a]"
      using join by (auto simp: registered_def actorAct_def)
    have r4: "lines st' = lines st @ [join_decl ?c (length nds) ?caps]"
      unfolding e synth_join_flat by (simp add: sc_lines)
    have d: "decl_of (join_decl ?c (length nds) ?caps) ?a"
      unfolding decl_of_def
    proof (intro exI conjI)
      show "join_decl ?c (length nds) ?caps = join_decl ?c (n_needs ?a) ?caps"
        by (simp add: n_needs_def)
      show "length ?caps = n_needs ?a" by (simp add: n_needs_def)
    qed
    have r5: "list_all2 decl_of [join_decl ?c (length nds) ?caps] (filter (\<lambda>a. 2 \<le> n_needs a) [?a])"
      using join d by (simp add: n_needs_def)
    have r6: "\<forall>s. \<exists>qs. queued (slots st' s) = queued (slots st s) @ qs
              \<and> filter registered qs = filter (\<lambda>a. needs a = Some [s]) [?a]"
    proof
      fix s
      let ?qs = "map (\<lambda>(n, y). decrAct ?c ?v (a_inst ?a) n (slot (slots ?s0 n)) y)
                   (filter (\<lambda>(n, y). n = s) (zip nds ?caps))"
      have "queued (slots st' s) = queued (slots ?s0 s) @ ?qs"
        unfolding e synth_join_flat by (simp add: decr_slots_props)
      then have q: "queued (slots st' s) = queued (slots st s) @ ?qs" by (simp add: sc_slots)
      have "filter registered ?qs = []" by (rule decrAct_not_registered)
      moreover have "filter (\<lambda>a. needs a = Some [s]) [?a] = []" using join by auto
      ultimately have "filter registered ?qs = filter (\<lambda>a. needs a = Some [s]) [?a]" by simp
      with q show "\<exists>qs. queued (slots st' s) = queued (slots st s) @ qs
              \<and> filter registered qs = filter (\<lambda>a. needs a = Some [s]) [?a]" by blast
    qed
    from r1 r2 r3 r4 r5 r6 show ?thesis by blast
  qed
  from c1 c2 c3 c4 c5 c6 rest show ?thesis by blast
qed

lemma resolve_acts_from_shape:
  assumes "resolve_acts_from i rest st = Inr st'" and "i + length rest \<le> length (acts st)"
  shows "\<exists>rs ds.
      acts st' = take i (acts st) @ map (\<lambda>a. a\<lparr>needs := Some (spec_needs st' (wait a))\<rparr>) rest
                 @ drop (i + length rest) (acts st)
    \<and> memo_le st st'
    \<and> tpl_imports st' = tpl_imports st
    \<and> (\<forall>s. slot (slots st' s) = slot (slots st s))
    \<and> roots st' = roots st @ rs
    \<and> list_all2 root_of rs
          (filter (\<lambda>a. n_needs a \<noteq> 1) (map (\<lambda>a. a\<lparr>needs := Some (spec_needs st' (wait a))\<rparr>) rest))
    \<and> filter registered rs =
          filter (\<lambda>a. needs a = Some []) (map (\<lambda>a. a\<lparr>needs := Some (spec_needs st' (wait a))\<rparr>) rest)
    \<and> lines st' = lines st @ ds
    \<and> list_all2 decl_of ds
          (filter (\<lambda>a. 2 \<le> n_needs a) (map (\<lambda>a. a\<lparr>needs := Some (spec_needs st' (wait a))\<rparr>) rest))
    \<and> (\<forall>s. \<exists>qs. queued (slots st' s) = queued (slots st s) @ qs
              \<and> filter registered qs =
                  filter (\<lambda>a. needs a = Some [s])
                    (map (\<lambda>a. a\<lparr>needs := Some (spec_needs st' (wait a))\<rparr>) rest))"
  using assms
proof (induction rest arbitrary: i st)
  case Nil
  then have e: "st' = st" by simp
  show ?case
    apply (rule exI[of _ "[]"], rule exI[of _ "[]"])
    apply (simp add: e memo_le_refl)
    done
next
  case (Cons act rest)
  let ?F = "\<lambda>a. a\<lparr>needs := Some (spec_needs st' (wait a))\<rparr>"
  from Cons.prems(1) obtain s1 where
    step: "resolve_act i act st = Inr s1" and
    loop: "resolve_acts_from (Suc i) rest s1 = Inr st'"
    by (auto split: sum.splits)
  from Cons.prems(2) have il: "i < length (acts st)" by simp
  from resolve_act_step[OF step] obtain nds rs1 ds1 where
    a1: "acts s1 = (acts st)[i := act\<lparr>needs := Some nds\<rparr>]" and
    a2: "nds = spec_needs s1 (wait act)" and
    a3: "\<forall>d\<in>set (wait act). dep_endpoint s1 d \<noteq> None" and
    a4: "memo_le st s1" and
    a5: "tpl_imports s1 = tpl_imports st" and
    a6: "\<forall>s. slot (slots s1 s) = slot (slots st s)" and
    a7: "roots s1 = roots st @ rs1" and
    a8: "list_all2 root_of rs1 (filter (\<lambda>a. n_needs a \<noteq> 1) [act\<lparr>needs := Some nds\<rparr>])" and
    a9: "filter registered rs1 = filter (\<lambda>a. needs a = Some []) [act\<lparr>needs := Some nds\<rparr>]" and
    a10: "lines s1 = lines st @ ds1" and
    a11: "list_all2 decl_of ds1 (filter (\<lambda>a. 2 \<le> n_needs a) [act\<lparr>needs := Some nds\<rparr>])" and
    a12: "\<forall>s. \<exists>qs. queued (slots s1 s) = queued (slots st s) @ qs
              \<and> filter registered qs = filter (\<lambda>a. needs a = Some [s]) [act\<lparr>needs := Some nds\<rparr>]"
    by blast
  have len1: "Suc i + length rest \<le> length (acts s1)" using Cons.prems(2) by (simp add: a1)
  from Cons.IH[OF loop len1] obtain rs2 ds2 where
    b1: "acts st' = take (Suc i) (acts s1) @ map ?F rest @ drop (Suc i + length rest) (acts s1)" and
    b4: "memo_le s1 st'" and
    b5: "tpl_imports st' = tpl_imports s1" and
    b6: "\<forall>s. slot (slots st' s) = slot (slots s1 s)" and
    b7: "roots st' = roots s1 @ rs2" and
    b8: "list_all2 root_of rs2 (filter (\<lambda>a. n_needs a \<noteq> 1) (map ?F rest))" and
    b9: "filter registered rs2 = filter (\<lambda>a. needs a = Some []) (map ?F rest)" and
    b10: "lines st' = lines s1 @ ds2" and
    b11: "list_all2 decl_of ds2 (filter (\<lambda>a. 2 \<le> n_needs a) (map ?F rest))" and
    b12: "\<forall>s. \<exists>qs. queued (slots st' s) = queued (slots s1 s) @ qs
              \<and> filter registered qs = filter (\<lambda>a. needs a = Some [s]) (map ?F rest)"
    by blast
  have fa: "?F act = act\<lparr>needs := Some nds\<rparr>"
    using spec_needs_mono[OF b4 a3] a2 by simp
  have tk: "take (Suc i) (acts s1) = take i (acts st) @ [act\<lparr>needs := Some nds\<rparr>]"
    using il by (simp add: a1 take_Suc_conv_app_nth)
  have dr: "drop (Suc i + length rest) (acts s1) = drop (i + length (act # rest)) (acts st)"
    by (simp add: a1)
  have c1: "acts st' = take i (acts st) @ map ?F (act # rest) @ drop (i + length (act # rest)) (acts st)"
    unfolding b1 tk dr by (simp add: fa)
  have c4: "memo_le st st'" by (rule memo_le_trans[OF a4 b4])
  have c5: "tpl_imports st' = tpl_imports st" by (simp add: a5 b5)
  have c6: "\<forall>s. slot (slots st' s) = slot (slots st s)" by (simp add: a6 b6)
  have c7: "roots st' = roots st @ (rs1 @ rs2)" by (simp add: a7 b7)
  have sp: "\<And>P. filter P (map ?F (act # rest)) = filter P [act\<lparr>needs := Some nds\<rparr>] @ filter P (map ?F rest)"
    by (simp add: fa)
  have c8: "list_all2 root_of (rs1 @ rs2) (filter (\<lambda>a. n_needs a \<noteq> 1) (map ?F (act # rest)))"
    unfolding sp by (rule list_all2_appendI[OF a8 b8])
  have c9: "filter registered (rs1 @ rs2) = filter (\<lambda>a. needs a = Some []) (map ?F (act # rest))"
    unfolding sp by (simp add: a9 b9)
  have c10: "lines st' = lines st @ (ds1 @ ds2)" by (simp add: a10 b10)
  have c11: "list_all2 decl_of (ds1 @ ds2) (filter (\<lambda>a. 2 \<le> n_needs a) (map ?F (act # rest)))"
    unfolding sp by (rule list_all2_appendI[OF a11 b11])
  have c12: "\<forall>s. \<exists>qs. queued (slots st' s) = queued (slots st s) @ qs
              \<and> filter registered qs = filter (\<lambda>a. needs a = Some [s]) (map ?F (act # rest))"
  proof
    fix s
    from a12 obtain q1 where q1: "queued (slots s1 s) = queued (slots st s) @ q1"
      "filter registered q1 = filter (\<lambda>a. needs a = Some [s]) [act\<lparr>needs := Some nds\<rparr>]"
      by blast
    from b12 obtain q2 where q2: "queued (slots st' s) = queued (slots s1 s) @ q2"
      "filter registered q2 = filter (\<lambda>a. needs a = Some [s]) (map ?F rest)"
      by blast
    have "queued (slots st' s) = queued (slots st s) @ (q1 @ q2)" by (simp add: q1 q2)
    moreover have "filter registered (q1 @ q2) = filter (\<lambda>a. needs a = Some [s]) (map ?F (act # rest))"
      unfolding sp by (simp add: q1 q2)
    ultimately show "\<exists>qs. queued (slots st' s) = queued (slots st s) @ qs
              \<and> filter registered qs = filter (\<lambda>a. needs a = Some [s]) (map ?F (act # rest))"
      by blast
  qed
  from c1 c4 c5 c6 c7 c8 c9 c10 c11 c12 show ?case by blast
qed











section \<open>Joins, roots and queues\<close>


lemma decr_emission:
  "call_emit (Suc n) (emit (decrAct c v inst need sy cap)) es s0 =
     Inr (s0\<lparr>lines := lines s0 @ [prefix es @ cap @ '' = '' @ sy @ '';'',
                                    prefix es @ ''if (!--'' @ c @ '') '' @ v @ ''();'']\<rparr>)"
  by (simp add: decrAct_def EmitContext_emit_def)




lemma resolve_acts_shape:
  assumes "resolve_acts st = Inr st'"
  shows "\<exists>rs ds.
      acts st' = map (\<lambda>a. a\<lparr>needs := Some (spec_needs st' (wait a))\<rparr>) (acts st)
    \<and> tpl_imports st' = tpl_imports st
    \<and> roots st' = roots st @ rs
    \<and> list_all2 root_of rs (filter (\<lambda>a. n_needs a \<noteq> 1) (acts st'))
    \<and> filter registered rs = filter (\<lambda>a. needs a = Some []) (acts st')
    \<and> lines st' = lines st @ ds
    \<and> list_all2 decl_of ds (filter (\<lambda>a. 2 \<le> n_needs a) (acts st'))
    \<and> (\<forall>s. \<exists>qs. queued (slots st' s) = queued (slots st s) @ qs
              \<and> filter registered qs = filter (\<lambda>a. needs a = Some [s]) (acts st'))"
proof -
  let ?F = "\<lambda>a. a\<lparr>needs := Some (spec_needs st' (wait a))\<rparr>"
  from assms have l: "resolve_acts_from 0 (acts st) st = Inr st'" by (simp add: resolve_acts_def)
  have b: "0 + length (acts st) \<le> length (acts st)" by simp
  from resolve_acts_from_shape[OF l b] obtain rs ds where
    c1: "acts st' = take 0 (acts st) @ map ?F (acts st) @ drop (0 + length (acts st)) (acts st)" and
    c5: "tpl_imports st' = tpl_imports st" and
    c7: "roots st' = roots st @ rs" and
    c8: "list_all2 root_of rs (filter (\<lambda>a. n_needs a \<noteq> 1) (map ?F (acts st)))" and
    c9: "filter registered rs = filter (\<lambda>a. needs a = Some []) (map ?F (acts st))" and
    c10: "lines st' = lines st @ ds" and
    c11: "list_all2 decl_of ds (filter (\<lambda>a. 2 \<le> n_needs a) (map ?F (acts st)))" and
    c12: "\<forall>s. \<exists>qs. queued (slots st' s) = queued (slots st s) @ qs
              \<and> filter registered qs = filter (\<lambda>a. needs a = Some [s]) (map ?F (acts st))"
    by blast
  from c1 have a: "acts st' = map ?F (acts st)" by simp
  from a c5 c7 c8 c9 c10 c11 c12 show ?thesis by (simp only: a[symmetric]) blast
qed

text \<open>The lines that callbacks made of template literals print.\<close>

lemma dep_resolve_bound:
  "dep_endpoint st d = Some e \<Longrightarrow> dep_resolve d st = Inr (e, st)"
  by (cases d) (simp_all add: dep_endpoint_def dep_resolve_def Binding_resolve_memo)

lemma string_bound:
  assumes "captureMap es = None" and "dep_endpoint st d = Some e"
  shows "EmitContext_string es d st = Inr (piece_text st (Str d), st)"
  using assms
  by (cases e) (simp_all add: EmitContext_string_def dep_resolve_bound piece_text_def)

lemma render_bound:
  "captureMap es = None \<Longrightarrow> bound_pieces st ps \<Longrightarrow> render es ps st = Inr (line_text st ps, st)"
proof (induction ps)
  case Nil
  show ?case by (simp add: line_text_def)
next
  case (Cons p ps)
  from Cons.prems(2) have b: "bound_pieces st ps" by (simp add: bound_pieces_def)
  note ih = Cons.IH[OF Cons.prems(1) b]
  show ?case
  proof (cases p)
    case (Txt t)
    then show ?thesis by (simp add: ih line_text_def piece_text_def)
  next
    case (Str d)
    with Cons.prems(2) obtain e where e: "dep_endpoint st d = Some e"
      by (auto simp: bound_pieces_def)
    show ?thesis
      by (simp add: Str string_bound[OF Cons.prems(1) e] ih) (simp add: line_text_def)
  qed
qed

lemma dep_endpoint_lines [simp]: "dep_endpoint (st\<lparr>lines := l\<rparr>) d = dep_endpoint st d"
  by (cases d) (simp_all add: dep_endpoint_def)

lemma piece_text_lines [simp]: "piece_text (st\<lparr>lines := l\<rparr>) = piece_text st"
  by (rule ext) (simp add: piece_text_def split: piece.splits option.splits endpoint.splits)

lemma line_text_lines [simp]: "line_text (st\<lparr>lines := l\<rparr>) = line_text st"
  by (rule ext) (simp add: line_text_def)

lemma bound_pieces_lines [simp]: "bound_pieces (st\<lparr>lines := l\<rparr>) = bound_pieces st"
  by (rule ext) (auto simp: bound_pieces_def list_all_iff split: piece.splits)

lemma run_plain:
  "captureMap es = None \<Longrightarrow> list_all (bound_pieces st) pss \<Longrightarrow>
   run_cmds call es (map Emit pss) st =
     Inr (st\<lparr>lines := lines st @ map (\<lambda>ps. prefix es @ line_text st ps) pss\<rparr>)"
proof (induction pss arbitrary: st)
  case Nil
  show ?case by simp
next
  case (Cons ps pss)
  let ?st1 = "st\<lparr>lines := lines st @ [prefix es @ line_text st ps]\<rparr>"
  from Cons.prems(2) have b: "bound_pieces st ps" and bs: "list_all (bound_pieces ?st1) pss"
    by simp_all
  have "run_cmds call es (map Emit (ps # pss)) st = run_cmds call es (map Emit pss) ?st1"
    by (simp add: render_bound[OF Cons.prems(1) b] EmitContext_emit_def)
  then show ?case by (simp add: Cons.IH[OF Cons.prems(1) bs])
qed

lemma emit_each_plain:
  "map emit as = map (map Emit) psss \<Longrightarrow> list_all (list_all (bound_pieces st)) psss \<Longrightarrow>
   emit_each (call_emit (Suc n)) pfx as st =
     Inr (st\<lparr>lines := lines st @ concat (map (map (\<lambda>ps. pfx @ line_text st ps)) psss)\<rparr>)"
proof (induction as arbitrary: psss st)
  case Nil
  then show ?case by simp
next
  case (Cons act as)
  then obtain pss psss' where p: "psss = pss # psss'" "emit act = map Emit pss"
      "map emit as = map (map Emit) psss'"
    by (cases psss) auto
  let ?st1 = "st\<lparr>lines := lines st @ map (\<lambda>ps. pfx @ line_text st ps) pss\<rparr>"
  from Cons.prems(2) p(1) have b: "list_all (bound_pieces st) pss"
    and bs: "list_all (list_all (bound_pieces ?st1)) psss'"
    by simp_all
  show ?case
    using Cons.IH[OF p(3) bs] by (simp add: p(1,2) run_plain[OF _ b])
qed

lemma run_cmds_append:
  "run_cmds call es (cs @ ds) st = bind_r (run_cmds call es cs st) (run_cmds call es ds)"
proof (induction cs arbitrary: st)
  case Nil
  show ?case by simp
next
  case (Cons c cs)
  show ?case by (cases "run_cmd call es c st") (simp_all add: Cons.IH)
qed

lemma producer_emission:
  assumes cm: "captureMap es = None"
    and hs: "list_all (bound_pieces s0) hs"
    and fs: "list_all (bound_pieces s0) fs"
    and q: "map emit (queued (slots s0 s)) = map (map Emit) psss"
    and qb: "list_all (list_all (bound_pieces s0)) psss"
  shows "call_emit (Suc (Suc n)) (map Emit hs @ EmitTriggered (OSlot s) ind # map Emit fs) es s0 =
     Inr (s0\<lparr>lines := lines s0 @ map (\<lambda>ps. prefix es @ line_text s0 ps) hs @
                 concat (map (map (\<lambda>ps. prefix es @ ind @ line_text s0 ps)) psss) @
                 map (\<lambda>ps. prefix es @ line_text s0 ps) fs\<rparr>)"
proof -
  let ?s1 = "s0\<lparr>lines := lines s0 @ map (\<lambda>ps. prefix es @ line_text s0 ps) hs\<rparr>"
  let ?s2 = "?s1\<lparr>lines := lines ?s1 @
               concat (map (map (\<lambda>ps. (prefix es @ ind) @ line_text ?s1 ps)) psss)\<rparr>"
  have a: "run_cmds (call_emit (Suc n)) es (map Emit hs) s0 = Inr ?s1"
    by (rule run_plain[OF cm hs])
  have q1: "map emit (queued (slots ?s1 s)) = map (map Emit) psss" using q by simp
  have qb1: "list_all (list_all (bound_pieces ?s1)) psss" using qb by simp
  have b: "emit_triggered (call_emit (Suc n)) es (OSlot s) ind ?s1 = Inr ?s2"
    unfolding emit_triggered_slot by (rule emit_each_plain[OF q1 qb1])
  have fs2: "list_all (bound_pieces ?s2) fs" using fs by simp
  have c: "run_cmds (call_emit (Suc n)) es (map Emit fs) ?s2 =
        Inr (?s2\<lparr>lines := lines ?s2 @ map (\<lambda>ps. prefix es @ line_text ?s2 ps) fs\<rparr>)"
    by (rule run_plain[OF cm fs2])
  have u: "call_emit (Suc (Suc n)) (map Emit hs @ EmitTriggered (OSlot s) ind # map Emit fs) es s0 =
      run_cmds (call_emit (Suc n)) es (map Emit hs @ EmitTriggered (OSlot s) ind # map Emit fs) s0"
    by (simp only: call_emit.simps)
  show ?thesis
    unfolding u run_cmds_append a using c by (simp add: b del: call_emit.simps)
qed

lemma trigger_emission:
  assumes cm: "captureMap es = None" and hs: "list_all (bound_pieces s0) hs"
  shows "call_emit (Suc (Suc n)) (map Emit hs @ EmitTriggered (OSlot s) ind # rest) es s0 =
     bind_r (foldl (\<lambda>r act. bind_r r (call_emit (Suc n) (emit act)
                      \<lparr>e_inst = a_inst act, prefix = prefix es @ ind, captureMap = None\<rparr>))
               (Inr (s0\<lparr>lines := lines s0 @ map (\<lambda>ps. prefix es @ line_text s0 ps) hs\<rparr>))
               (queued (slots s0 s)))
       (call_emit (Suc (Suc n)) rest es)"
proof -
  let ?s1 = "s0\<lparr>lines := lines s0 @ map (\<lambda>ps. prefix es @ line_text s0 ps) hs\<rparr>"
  let ?c = "call_emit (Suc n)"
  have u: "call_emit (Suc (Suc n)) cs es = run_cmds ?c es cs" for cs
    by (simp only: call_emit.simps)
  have a: "run_cmds ?c es (map Emit hs) s0 = Inr ?s1"
    by (rule run_plain[OF cm hs])
  have b: "run_cmds ?c es (EmitTriggered (OSlot s) ind # rest) ?s1 =
      bind_r (emit_each ?c (prefix es @ ind) (queued (slots ?s1 s)) ?s1) (run_cmds ?c es rest)"
    by (simp add: emit_triggered_slot bind_r_def del: call_emit.simps split: sum.splits)
  have q: "queued (slots ?s1 s) = queued (slots s0 s)" by simp
  show ?thesis
    unfolding u run_cmds_append a bind_r_Inr b q emit_each_foldl ..
qed





lemma shared_resolved:
  "map_sum id (\<lambda>s. (map a_inst (roots s), map a_inst (queued (slots s 0)), map needs (acts s)))
     (resolve_acts (built shared_graph)) =
   Inr ([0], [Suc 0, Suc (Suc 0)], [Some [], Some [0], Some [0]])"
  by (simp add: shared_graph_def eval_defs resolve_defs)

lemma shared_built:
  "roots (built shared_graph) = []"
  "queued (slots (built shared_graph) 0) = []"
  "map a_inst (acts (built shared_graph)) = [0, Suc 0, Suc (Suc 0)]"
  by (simp_all add: shared_graph_def eval_defs)

lemma shared_scheduled:
  "map_sum id (\<lambda>s. (map emit (roots s), map emit (queued (slots s 0)),
        resolved (binds s 0), resolved (binds s (Suc 0)), resolved (binds s (Suc (Suc 0))),
        slot (slots s 0), tpl_imports s, lines s))
     (resolve_acts (built shared_graph)) =
   Inr ([[Emit [Txt ''fs_1.readFile('', Str (DBind 0),
                Txt ('', '' @ [CHR 0x27] @ ''utf8'' @ [CHR 0x27] @ '', function (err, out_1) {'')],
          Emit [Txt ''  if (err) throw err;''],
          EmitTriggered (OSlot 0) ''  '',
          Emit [Txt ''});'']]],
        [[Emit [Txt ''console.log('', Str (DBind (Suc 0)), Txt '');'']],
         [Emit [Txt ''console.log('', Str (DBind (Suc (Suc 0))), Txt '');'']]],
        Some (Lit \<lparr>l_type = ''text'', l_value = JStr ''in.txt''\<rparr>), Some (Slot 0), Some (Slot 0),
        ''out_1'', [(''fs'', ''fs_1'')], [])"
  by (simp add: shared_graph_def eval_defs resolve_defs)

lemma literal_logs_scheduled:
  "map_sum id (\<lambda>s. (map emit (roots s), map a_inst (roots s), map needs (acts s),
        resolved (binds s 0), resolved (binds s (Suc 0)), tpl_imports s, lines s))
     (resolve_acts (built literal_logs_graph)) =
   Inr ([[Emit [Txt ''console.log('', Str (DBind 0), Txt '');'']],
         [Emit [Txt ''console.log('', Str (DBind (Suc 0)), Txt '');'']]],
        [0, Suc 0], [Some [], Some []],
        Some (Lit \<lparr>l_type = ''text'', l_value = JStr ''first''\<rparr>),
        Some (Lit \<lparr>l_type = ''text'', l_value = JStr ''second''\<rparr>), [], [])"
  by (simp add: literal_logs_graph_def eval_defs resolve_defs)



text \<open>
  Claim C4. After a successful \<open>resolve_acts\<close> every registered action carries the list of
  the slots it waits for (its non-constant dependencies, in the order of its \<open>wait\<close> list).
  \<^item> The actions with no such dependency are, in registration order, the registered actions
    that were appended to the roots (the other new roots are actor functions of joins).
  \<^item> The actions with exactly one such dependency \<open>s\<close> are, in registration order, the
    registered actions that were appended to the queue of the slot \<open>s\<close> (the other new
    entries are helpers of joins).
  \<^item> \<open>emit_code\<close> pushes the import lines and an empty line and then calls the callback of
    every root, in the order of the root list, each in a context with an empty prefix and
    on the state its predecessor left. When the roots only emit template literals, the
    output is exactly the lines already present, the import lines, the empty line and the
    text of these lines, root after root, with no indentation.
  \<^item> A callback that emits header lines, triggers the slot \<open>s\<close> with an indentation and
    emits footer lines prints, wherever it is run: its header lines at its own prefix, then
    the lines of the actions queued on \<open>s\<close>, in queue order, at its prefix followed by the
    indentation, then its footer lines. So the actions queued on a slot are printed inside
    the code of the producer of that slot.
  \<^item> Whatever the queued actions are, a callback that emits header lines and then triggers
    the slot \<open>s\<close> prints its header lines and then calls the callback of every action
    queued on \<open>s\<close>, in queue order, in a context whose prefix is its own prefix followed by
    the indentation, before it runs the rest of its code.
\<close>

theorem resolve_acts_classifies:
  assumes "resolve_acts st = Inr st'"
  shows "acts st' = map (\<lambda>a. a\<lparr>needs := Some (spec_needs st' (wait a))\<rparr>) (acts st)
    \<and> (\<exists>rs. roots st' = roots st @ rs
           \<and> filter registered rs = filter (\<lambda>a. needs a = Some []) (acts st'))
    \<and> (\<forall>s. \<exists>qs. queued (slots st' s) = queued (slots st s) @ qs
              \<and> filter registered qs = filter (\<lambda>a. needs a = Some [s]) (acts st'))
    \<and> emit_code n st' =
         foldl (\<lambda>r act. bind_r r (call_emit n (emit act)
                  \<lparr>e_inst = a_inst act, prefix = '''', captureMap = None\<rparr>))
           (Inr (st'\<lparr>lines := lines st' @ map import_decl (tpl_imports st') @ ['''']\<rparr>))
           (roots st')
    \<and> (map emit (roots st') = map (map Emit) rss \<longrightarrow>
        list_all (list_all (bound_pieces st')) rss \<longrightarrow>
          emit_code (Suc n) st' =
            Inr (st'\<lparr>lines := lines st' @ map import_decl (tpl_imports st') @ [''''] @
                   concat (map (map (line_text st')) rss)\<rparr>))
    \<and> (captureMap es = None \<longrightarrow>
        list_all (bound_pieces s0) hs \<longrightarrow>
        list_all (bound_pieces s0) fs \<longrightarrow>
        map emit (queued (slots s0 s)) = map (map Emit) qss \<longrightarrow>
        list_all (list_all (bound_pieces s0)) qss \<longrightarrow>
          call_emit (Suc (Suc n)) (map Emit hs @ EmitTriggered (OSlot s) ind # map Emit fs) es s0 =
            Inr (s0\<lparr>lines := lines s0 @ map (\<lambda>ps. prefix es @ line_text s0 ps) hs @
                   concat (map (map (\<lambda>ps. prefix es @ ind @ line_text s0 ps)) qss) @
                   map (\<lambda>ps. prefix es @ line_text s0 ps) fs\<rparr>))
    \<and> (captureMap es = None \<longrightarrow>
        list_all (bound_pieces s0) hs \<longrightarrow>
          call_emit (Suc (Suc n)) (map Emit hs @ EmitTriggered (OSlot s) ind # rest) es s0 =
            bind_r (foldl (\<lambda>r act. bind_r r (call_emit (Suc n) (emit act)
                             \<lparr>e_inst = a_inst act, prefix = prefix es @ ind, captureMap = None\<rparr>))
                      (Inr (s0\<lparr>lines := lines s0 @ map (\<lambda>ps. prefix es @ line_text s0 ps) hs\<rparr>))
                      (queued (slots s0 s)))
              (call_emit (Suc (Suc n)) rest es))"
proof -
  from resolve_acts_shape[OF assms] obtain rs where
    a: "acts st' = map (\<lambda>a. a\<lparr>needs := Some (spec_needs st' (wait a))\<rparr>) (acts st)" and
    b: "roots st' = roots st @ rs" "filter registered rs = filter (\<lambda>a. needs a = Some []) (acts st')" and
    c: "\<forall>s. \<exists>qs. queued (slots st' s) = queued (slots st s) @ qs
              \<and> filter registered qs = filter (\<lambda>a. needs a = Some [s]) (acts st')"
    by blast
  from b have b': "\<exists>rs. roots st' = roots st @ rs
           \<and> filter registered rs = filter (\<lambda>a. needs a = Some []) (acts st')" by blast
  let ?s1 = "st'\<lparr>lines := lines st' @ map import_decl (tpl_imports st') @ ['''']\<rparr>"
  have u: "emit_code k st' = emit_each (call_emit k) '''' (roots st') ?s1" for k
    by (simp add: emit_code_def Let_def)
  have d: "emit_code n st' =
         foldl (\<lambda>r act. bind_r r (call_emit n (emit act)
                  \<lparr>e_inst = a_inst act, prefix = '''', captureMap = None\<rparr>))
           (Inr ?s1) (roots st')"
    unfolding u by (rule emit_each_foldl)
  have e: "map emit (roots st') = map (map Emit) rss \<longrightarrow>
        list_all (list_all (bound_pieces st')) rss \<longrightarrow>
          emit_code (Suc n) st' =
            Inr (st'\<lparr>lines := lines st' @ map import_decl (tpl_imports st') @ [''''] @
                   concat (map (map (line_text st')) rss)\<rparr>)"
  proof (intro impI)
    assume h: "map emit (roots st') = map (map Emit) rss"
      and hb: "list_all (list_all (bound_pieces st')) rss"
    from hb have hb1: "list_all (list_all (bound_pieces ?s1)) rss" by simp
    show "emit_code (Suc n) st' =
            Inr (st'\<lparr>lines := lines st' @ map import_decl (tpl_imports st') @ [''''] @
                   concat (map (map (line_text st')) rss)\<rparr>)"
      unfolding u using emit_each_plain[OF h hb1, of n "''''"]
      by (simp del: call_emit.simps)
  qed
  have f: "captureMap es = None \<longrightarrow>
        list_all (bound_pieces s0) hs \<longrightarrow>
        list_all (bound_pieces s0) fs \<longrightarrow>
        map emit (queued (slots s0 s)) = map (map Emit) qss \<longrightarrow>
        list_all (list_all (bound_pieces s0)) qss \<longrightarrow>
          call_emit (Suc (Suc n)) (map Emit hs @ EmitTriggered (OSlot s) ind # map Emit fs) es s0 =
            Inr (s0\<lparr>lines := lines s0 @ map (\<lambda>ps. prefix es @ line_text s0 ps) hs @
                   concat (map (map (\<lambda>ps. prefix es @ ind @ line_text s0 ps)) qss) @
                   map (\<lambda>ps. prefix es @ line_text s0 ps) fs\<rparr>)"
    by (intro impI) (rule producer_emission)
  have g: "captureMap es = None \<longrightarrow>
        list_all (bound_pieces s0) hs \<longrightarrow>
          call_emit (Suc (Suc n)) (map Emit hs @ EmitTriggered (OSlot s) ind # rest) es s0 =
            bind_r (foldl (\<lambda>r act. bind_r r (call_emit (Suc n) (emit act)
                             \<lparr>e_inst = a_inst act, prefix = prefix es @ ind, captureMap = None\<rparr>))
                      (Inr (s0\<lparr>lines := lines s0 @ map (\<lambda>ps. prefix es @ line_text s0 ps) hs\<rparr>))
                      (queued (slots s0 s)))
              (call_emit (Suc (Suc n)) rest es)"
    by (intro impI) (rule trigger_emission)
  from a b' c d e f g show ?thesis by (intro conjI)
qed

theorem resolve_acts_classifies_witness:
  "\<exists>st'. resolve_acts (built shared_graph) = Inr st'
     \<and> acts st' = map (\<lambda>a. a\<lparr>needs := Some (spec_needs st' (wait a))\<rparr>) (acts (built shared_graph))
     \<and> map needs (acts st') = [Some [], Some [0], Some [0]]
     \<and> map a_inst (acts (built shared_graph)) = [0, Suc 0, Suc (Suc 0)]
     \<and> (\<exists>rs. roots st' = roots (built shared_graph) @ rs
            \<and> filter registered rs = filter (\<lambda>a. needs a = Some []) (acts st'))
     \<and> map a_inst (roots st') = [0]
     \<and> (\<exists>qs. queued (slots st' 0) = queued (slots (built shared_graph) 0) @ qs
            \<and> filter registered qs = filter (\<lambda>a. needs a = Some [0]) (acts st'))
     \<and> map a_inst (queued (slots st' 0)) = [Suc 0, Suc (Suc 0)]
     \<and> map_sum id lines (emit_code 2 st') =
         Inr [''var fs_1 = require('' @ [CHR 0x22] @ ''fs'' @ [CHR 0x22] @ '');'',
              '''',
              ''fs_1.readFile('' @ [CHR 0x22] @ ''in.txt'' @ [CHR 0x22, CHR '','', CHR '' '', CHR 0x27]
                 @ ''utf8'' @ [CHR 0x27] @ '', function (err, out_1) {'',
              ''  if (err) throw err;'',
              ''  console.log(out_1);'',
              ''  console.log(out_1);'',
              ''});'']
     \<and> call_emit (Suc (Suc 0))
           (map Emit [[Txt ''fs_1.readFile('', Str (DBind 0),
                       Txt ('', '' @ [CHR 0x27] @ ''utf8'' @ [CHR 0x27] @ '', function (err, out_1) {'')],
                      [Txt ''  if (err) throw err;'']] @
            EmitTriggered (OSlot 0) ''  '' # map Emit [[Txt ''});'']])
           \<lparr>e_inst = 0, prefix = '''', captureMap = None\<rparr>
           (st'\<lparr>lines := lines st' @ map import_decl (tpl_imports st') @ ['''']\<rparr>) =
         bind_r (foldl (\<lambda>r act. bind_r r (call_emit (Suc 0) (emit act)
                          \<lparr>e_inst = a_inst act, prefix = '''' @ ''  '', captureMap = None\<rparr>))
                   (Inr (st'\<lparr>lines := lines st' @ map import_decl (tpl_imports st') @ [''''] @
                           [''fs_1.readFile('' @ [CHR 0x22] @ ''in.txt'' @
                              [CHR 0x22, CHR '','', CHR '' '', CHR 0x27] @ ''utf8'' @ [CHR 0x27] @
                              '', function (err, out_1) {'',
                            ''  if (err) throw err;'']\<rparr>))
                   (queued (slots st' 0)))
           (call_emit (Suc (Suc 0)) (map Emit [[Txt ''});'']])
              \<lparr>e_inst = 0, prefix = '''', captureMap = None\<rparr>)
     \<and> (\<exists>st''. resolve_acts (built literal_logs_graph) = Inr st''
            \<and> map needs (acts st'') = [Some [], Some []]
            \<and> map a_inst (roots st'') = [0, Suc 0]
            \<and> map_sum id lines (emit_code 1 st'') =
                Inr ['''',
                     ''console.log('' @ [CHR 0x22] @ ''first'' @ [CHR 0x22] @ '');'',
                     ''console.log('' @ [CHR 0x22] @ ''second'' @ [CHR 0x22] @ '');''])"
proof -
  obtain st' where r: "resolve_acts (built shared_graph) = Inr st'"
    and v: "map a_inst (roots st') = [0]" "map a_inst (queued (slots st' 0)) = [Suc 0, Suc (Suc 0)]"
           "map needs (acts st') = [Some [], Some [0], Some [0]]"
    and w: "map emit (roots st') =
              [[Emit [Txt ''fs_1.readFile('', Str (DBind 0),
                      Txt ('', '' @ [CHR 0x27] @ ''utf8'' @ [CHR 0x27] @ '', function (err, out_1) {'')],
                Emit [Txt ''  if (err) throw err;''],
                EmitTriggered (OSlot 0) ''  '',
                Emit [Txt ''});'']]]"
           "map emit (queued (slots st' 0)) =
              [[Emit [Txt ''console.log('', Str (DBind (Suc 0)), Txt '');'']],
               [Emit [Txt ''console.log('', Str (DBind (Suc (Suc 0))), Txt '');'']]]"
           "resolved (binds st' 0) = Some (Lit \<lparr>l_type = ''text'', l_value = JStr ''in.txt''\<rparr>)"
           "resolved (binds st' (Suc 0)) = Some (Slot 0)"
           "resolved (binds st' (Suc (Suc 0))) = Some (Slot 0)"
           "slot (slots st' 0) = ''out_1''"
           "tpl_imports st' = [(''fs'', ''fs_1'')]"
           "lines st' = []"
    using shared_resolved shared_scheduled by (cases "resolve_acts (built shared_graph)") auto
  let ?es = "\<lparr>e_inst = 0, prefix = '''', captureMap = None\<rparr>"
  let ?s0 = "st'\<lparr>lines := lines st' @ map import_decl (tpl_imports st') @ ['''']\<rparr>"
  let ?hs = "[[Txt ''fs_1.readFile('', Str (DBind 0),
               Txt ('', '' @ [CHR 0x27] @ ''utf8'' @ [CHR 0x27] @ '', function (err, out_1) {'')],
              [Txt ''  if (err) throw err;'']]"
  let ?fs = "[[Txt ''});'']]"
  let ?qss = "[[[Txt ''console.log('', Str (DBind (Suc 0)), Txt '');'']],
               [[Txt ''console.log('', Str (DBind (Suc (Suc 0))), Txt '');'']]]"
  note t = resolve_acts_classifies[OF r, where n = "Suc (Suc 0)"]
  note t6 = resolve_acts_classifies[OF r, where n = 0 and es = ?es and ?s0.0 = ?s0 and hs = ?hs
      and fs = ?fs and s = 0 and ind = "''  ''" and qss = ?qss,
      THEN conjunct2, THEN conjunct2, THEN conjunct2, THEN conjunct2, THEN conjunct2,
      THEN conjunct1, rule_format]
  note t7 = resolve_acts_classifies[OF r, where n = 0 and es = ?es and ?s0.0 = ?s0 and hs = ?hs
      and s = 0 and ind = "''  ''" and rest = "map Emit ?fs",
      THEN conjunct2, THEN conjunct2, THEN conjunct2, THEN conjunct2, THEN conjunct2,
      THEN conjunct2, rule_format]
  have h1: "captureMap ?es = None" by simp
  have h2: "list_all (bound_pieces ?s0) ?hs" by (simp add: bound_pieces_def dep_endpoint_def w)
  have h3: "list_all (bound_pieces ?s0) ?fs" by (simp add: bound_pieces_def)
  have h4: "map emit (queued (slots ?s0 0)) = map (map Emit) ?qss" by (simp add: w)
  have h5: "list_all (list_all (bound_pieces ?s0)) ?qss"
    by (simp add: bound_pieces_def dep_endpoint_def w)
  note e6 = t6[OF h1 h2 h3 h4 h5]
  have gen: "call_emit (Suc (Suc 0))
           (map Emit [[Txt ''fs_1.readFile('', Str (DBind 0),
                       Txt ('', '' @ [CHR 0x27] @ ''utf8'' @ [CHR 0x27] @ '', function (err, out_1) {'')],
                      [Txt ''  if (err) throw err;'']] @
            EmitTriggered (OSlot 0) ''  '' # map Emit [[Txt ''});'']])
           \<lparr>e_inst = 0, prefix = '''', captureMap = None\<rparr>
           (st'\<lparr>lines := lines st' @ map import_decl (tpl_imports st') @ ['''']\<rparr>) =
         bind_r (foldl (\<lambda>r act. bind_r r (call_emit (Suc 0) (emit act)
                          \<lparr>e_inst = a_inst act, prefix = '''' @ ''  '', captureMap = None\<rparr>))
                   (Inr (st'\<lparr>lines := lines st' @ map import_decl (tpl_imports st') @ [''''] @
                           [''fs_1.readFile('' @ [CHR 0x22] @ ''in.txt'' @
                              [CHR 0x22, CHR '','', CHR '' '', CHR 0x27] @ ''utf8'' @ [CHR 0x27] @
                              '', function (err, out_1) {'',
                            ''  if (err) throw err;'']\<rparr>))
                   (queued (slots st' 0)))
           (call_emit (Suc (Suc 0)) (map Emit [[Txt ''});'']])
              \<lparr>e_inst = 0, prefix = '''', captureMap = None\<rparr>)"
    unfolding t7[OF h1 h2]
    by (simp add: w line_text_def piece_text_def dep_endpoint_def JSON_stringify_def json_escape_def
          del: call_emit.simps)
  from w(1) v(1) obtain r0 where rr: "roots st' = [r0]" and r0: "a_inst r0 = 0"
      "emit r0 = map Emit ?hs @ EmitTriggered (OSlot 0) ''  '' # map Emit ?fs"
    by (cases "roots st'") auto
  have k: "emit_code (Suc (Suc 0)) st' =
           call_emit (Suc (Suc 0)) (map Emit ?hs @ EmitTriggered (OSlot 0) ''  '' # map Emit ?fs) ?es ?s0"
    unfolding t[THEN conjunct2, THEN conjunct2, THEN conjunct2, THEN conjunct1] rr
    by (simp add: r0 del: call_emit.simps)
  have out: "map_sum id lines (emit_code 2 st') =
         Inr [''var fs_1 = require('' @ [CHR 0x22] @ ''fs'' @ [CHR 0x22] @ '');'',
              '''',
              ''fs_1.readFile('' @ [CHR 0x22] @ ''in.txt'' @ [CHR 0x22, CHR '','', CHR '' '', CHR 0x27]
                 @ ''utf8'' @ [CHR 0x27] @ '', function (err, out_1) {'',
              ''  if (err) throw err;'',
              ''  console.log(out_1);'',
              ''  console.log(out_1);'',
              ''});'']"
    unfolding numeral_2_eq_2 k e6
    by (simp add: w line_text_def piece_text_def dep_endpoint_def import_decl_def libs_def
          JSON_stringify_def json_escape_def)
  obtain st'' where r2: "resolve_acts (built literal_logs_graph) = Inr st''"
    and v2: "map needs (acts st'') = [Some [], Some []]" "map a_inst (roots st'') = [0, Suc 0]"
    and w2: "map emit (roots st'') =
               [[Emit [Txt ''console.log('', Str (DBind 0), Txt '');'']],
                [Emit [Txt ''console.log('', Str (DBind (Suc 0)), Txt '');'']]]"
            "resolved (binds st'' 0) = Some (Lit \<lparr>l_type = ''text'', l_value = JStr ''first''\<rparr>)"
            "resolved (binds st'' (Suc 0)) = Some (Lit \<lparr>l_type = ''text'', l_value = JStr ''second''\<rparr>)"
            "tpl_imports st'' = []" "lines st'' = []"
    using literal_logs_scheduled by (cases "resolve_acts (built literal_logs_graph)") auto
  let ?rss = "[[[Txt ''console.log('', Str (DBind 0), Txt '');'']],
               [[Txt ''console.log('', Str (DBind (Suc 0)), Txt '');'']]]"
  note t5 = resolve_acts_classifies[OF r2, where n = 0 and rss = ?rss,
      THEN conjunct2, THEN conjunct2, THEN conjunct2, THEN conjunct2, THEN conjunct1, rule_format]
  have g1: "map emit (roots st'') = map (map Emit) ?rss" by (simp add: w2)
  have g2: "list_all (list_all (bound_pieces st'')) ?rss"
    by (simp add: bound_pieces_def dep_endpoint_def w2)
  note e5 = t5[OF g1 g2]
  have out2: "map_sum id lines (emit_code 1 st'') =
                Inr ['''',
                     ''console.log('' @ [CHR 0x22] @ ''first'' @ [CHR 0x22] @ '');'',
                     ''console.log('' @ [CHR 0x22] @ ''second'' @ [CHR 0x22] @ '');'']"
    unfolding One_nat_def e5
    by (simp add: w2 line_text_def piece_text_def dep_endpoint_def JSON_stringify_def json_escape_def)
  have logs: "\<exists>st''. resolve_acts (built literal_logs_graph) = Inr st''
            \<and> map needs (acts st'') = [Some [], Some []]
            \<and> map a_inst (roots st'') = [0, Suc 0]
            \<and> map_sum id lines (emit_code 1 st'') =
                Inr ['''',
                     ''console.log('' @ [CHR 0x22] @ ''first'' @ [CHR 0x22] @ '');'',
                     ''console.log('' @ [CHR 0x22] @ ''second'' @ [CHR 0x22] @ '');'']"
    apply (rule exI[where x = st''])
    apply (intro conjI)
       apply (rule r2)
      apply (rule v2(1))
     apply (rule v2(2))
    apply (rule out2)
    done
  show ?thesis
    apply (rule exI[where x = st'])
    apply (intro conjI)
             apply (rule r)
            apply (rule t[THEN conjunct1])
           apply (rule v(3))
          apply (rule shared_built(3))
         apply (rule t[THEN conjunct2, THEN conjunct1])
        apply (rule v(1))
       apply (rule t[THEN conjunct2, THEN conjunct2, THEN conjunct1, THEN spec])
      apply (rule v(2))
      apply (rule out)
     apply (rule gen)
    apply (rule logs)
    done
qed

section \<open>The shape of the compiled output\<close>




end
